theory Spec2Isabelle
  imports Complex_Main "HOL-Library.Sublist"
begin

section \<open>Configuration\<close>

text \<open>
  The module constants of \<^verbatim>\<open>tradingview-api-data-extractor.py\<close>. A price is a Python
  float, a finite IEEE-754 double, held as the rational number it denotes; sums and
  averages of prices are computed with the rounding of float arithmetic (see the section
  on floating-point arithmetic). Console output (\<^verbatim>\<open>print\<close>) is not modelled.
\<close>

definition TICKERS :: "string list" where
  "TICKERS = [''TSLA'', ''MSFT'', ''NVDA'', ''PLTR'']"

definition SHORT_MA :: nat where
  "SHORT_MA = 5"

definition LONG_MA :: nat where
  "LONG_MA = 15"

definition HIGH_FREQ_INTERVAL :: rat where
  "HIGH_FREQ_INTERVAL = 60"

definition HIGH_FREQ_DURATION :: nat where
  "HIGH_FREQ_DURATION = 30"

section \<open>Data\<close>

text \<open>
  A \<^verbatim>\<open>collections.deque\<close>: its items, oldest first, and its \<^verbatim>\<open>maxlen\<close>
  (\<open>None\<close> for an unbounded deque). \<^verbatim>\<open>append\<close> adds on the right and, when the deque
  is then longer than \<^verbatim>\<open>maxlen\<close>, discards one item from the left.
\<close>

record deque =
  items :: "rat list"
  maxlen :: "nat option"

definition deque_new :: "nat option \<Rightarrow> deque" where
  "deque_new m = \<lparr>items = [], maxlen = m\<rparr>"

definition deque_append :: "deque \<Rightarrow> rat \<Rightarrow> deque" where
  "deque_append d x =
     (let ys = items d @ [x]
      in case maxlen d of
           None \<Rightarrow> d\<lparr>items := ys\<rparr>
         | Some m \<Rightarrow> if m < length ys then d\<lparr>items := tl ys\<rparr> else d\<lparr>items := ys\<rparr>)"

text \<open>The invariant every deque object keeps: it never holds more than \<^verbatim>\<open>maxlen\<close> items.\<close>

definition deque_ok :: "deque \<Rightarrow> bool" where
  "deque_ok d = (case maxlen d of None \<Rightarrow> True | Some m \<Rightarrow> length (items d) \<le> m)"

text \<open>The three signal strings \<^verbatim>\<open>"BUY"\<close>, \<^verbatim>\<open>"SELL"\<close> and \<^verbatim>\<open>"HOLD"\<close>.\<close>

datatype signal = BUY | SELL | HOLD

text \<open>The slice \<^verbatim>\<open>xs[-n:]\<close> for \<open>n > 0\<close>: the last \<open>n\<close> items, or all of them.\<close>

definition slice_last :: "nat \<Rightarrow> 'a list \<Rightarrow> 'a list" where
  "slice_last n xs = drop (length xs - n) xs"

section \<open>Floating-point arithmetic\<close>

text \<open>
  A Python float is an IEEE-754 binary64 number: a finite double, held as the rational it
  denotes, an infinity, or NaN. (The two zeros are not told apart; they compare equal
  and add alike.) Every operation returns the exact result rounded to the nearest
  double, ties to the even significand.
\<close>

datatype pyfloat = Finite rat | PosInf | NegInf | NaN

text \<open>The number of binary digits of a natural number (\<^verbatim>\<open>int.bit_length\<close>).\<close>

function bit_length :: "nat \<Rightarrow> nat" where
  "bit_length n = (if n = 0 then 0 else Suc (bit_length (n div 2)))"
  by pat_completeness auto
termination
  by (relation "measure id") auto

declare bit_length.simps [simp del]

text \<open>For \<open>y > 0\<close>, the exponent \<open>e\<close> with \<open>2\<^sup>e \<le> y < 2\<^sup>e\<^sup>+\<^sup>1\<close>.\<close>

definition binade :: "rat \<Rightarrow> int" where
  "binade y =
     (if 1 \<le> y then int (bit_length (nat \<lfloor>y\<rfloor>)) - 1
      else - int (bit_length (nat \<lceil>1 / y\<rceil> - 1)))"

definition pow2 :: "int \<Rightarrow> rat" where
  "pow2 e = (if 0 \<le> e then 2 ^ nat e else 1 / 2 ^ nat (- e))"

definition round_half_even :: "rat \<Rightarrow> int" where
  "round_half_even x =
     (let n = \<lfloor>x\<rfloor>; r = x - of_int n
      in if r < 1 / 2 then n else if 1 / 2 < r then n + 1 else if even n then n else n + 1)"

text \<open>
  Rounding a rational to binary64: 53 significant bits in the normal range, a fixed
  spacing of \<open>2\<^sup>-\<^sup>1\<^sup>0\<^sup>7\<^sup>4\<close> below \<open>2\<^sup>-\<^sup>1\<^sup>0\<^sup>2\<^sup>2\<close>, an infinity when the rounded magnitude reaches
  \<open>2\<^sup>1\<^sup>0\<^sup>2\<^sup>4\<close>.
\<close>

definition round_double :: "rat \<Rightarrow> pyfloat" where
  "round_double x =
     (if x = 0 then Finite 0
      else
        let e = max (binade \<bar>x\<bar>) (- 1022);
            u = pow2 (e - 52);
            y = of_int (round_half_even (x / u)) * u
        in if pow2 1024 \<le> \<bar>y\<bar> then (if 0 < x then PosInf else NegInf) else Finite y)"

text \<open>Float addition.\<close>

fun fadd :: "pyfloat \<Rightarrow> pyfloat \<Rightarrow> pyfloat" where
  "fadd (Finite a) (Finite b) = round_double (a + b)"
| "fadd NaN y = NaN"
| "fadd x NaN = NaN"
| "fadd PosInf NegInf = NaN"
| "fadd NegInf PosInf = NaN"
| "fadd PosInf y = PosInf"
| "fadd x PosInf = PosInf"
| "fadd NegInf y = NegInf"
| "fadd x NegInf = NegInf"

text \<open>
  \<^verbatim>\<open>sum(xs)\<close> for a list of floats: the accumulator starts at 0 and the items are added
  from left to right, each addition rounded. (This is the built-in \<^verbatim>\<open>sum\<close> of CPython up
  to 3.11; from 3.12 on it carries a correction term along.)
\<close>

definition fsum :: "rat list \<Rightarrow> pyfloat" where
  "fsum xs = foldl fadd (Finite 0) (map Finite xs)"

text \<open>\<^verbatim>\<open>x / n\<close> for a float \<open>x\<close> and a positive integer constant \<open>n\<close>.\<close>

fun fdiv :: "pyfloat \<Rightarrow> nat \<Rightarrow> pyfloat" where
  "fdiv (Finite a) n = round_double (a / of_nat n)"
| "fdiv x n = x"

text \<open>\<^verbatim>\<open>x < y\<close> on floats; every comparison with NaN is false.\<close>

fun fless :: "pyfloat \<Rightarrow> pyfloat \<Rightarrow> bool" where
  "fless (Finite a) (Finite b) = (a < b)"
| "fless NaN y = False"
| "fless x NaN = False"
| "fless x NegInf = False"
| "fless PosInf y = False"
| "fless NegInf y = True"
| "fless x PosInf = True"

section \<open>The moving-average crossover\<close>

text \<open>
  \<^verbatim>\<open>get_swing_signal(price_history, current_price)\<close> mutates the deque it is given; the
  model returns the deque after the call together with the returned triple. The test
  \<^verbatim>\<open>short_ma > long_ma\<close> is \<open>fless long_ma short_ma\<close>.
\<close>

definition get_swing_signal :: "deque \<Rightarrow> rat \<Rightarrow> deque \<times> signal \<times> pyfloat \<times> pyfloat" where
  "get_swing_signal price_history current_price =
     (let price_history = deque_append price_history current_price
      in if length (items price_history) < LONG_MA then (price_history, HOLD, Finite 0, Finite 0)
         else
           let short_ma = fdiv (fsum (slice_last SHORT_MA (items price_history))) SHORT_MA;
               long_ma = fdiv (fsum (items price_history)) LONG_MA
           in if fless long_ma short_ma then (price_history, BUY, short_ma, long_ma)
              else if fless short_ma long_ma then (price_history, SELL, short_ma, long_ma)
              else (price_history, HOLD, short_ma, long_ma))"


definition fmean :: "rat list \<Rightarrow> pyfloat" where
  "fmean xs = fdiv (fsum xs) (length xs)"

section \<open>Wall-clock time\<close>

text \<open>
  A \<^verbatim>\<open>datetime\<close>. The calendar date is held as its proleptic Gregorian ordinal
  (\<^verbatim>\<open>date.toordinal()\<close>, from 1 for 0001-01-01 to 3652059 for 9999-12-31): the program
  never reads year, month or day on their own, \<^verbatim>\<open>replace\<close> keeps them, and Python's own
  \<^verbatim>\<open>datetime + timedelta\<close> goes through the ordinal. All the datetimes the program
  compares or subtracts carry the same \<^verbatim>\<open>tzinfo\<close>, for which Python compares and
  subtracts the wall-clock fields; the time zone is therefore not part of the model.
\<close>

record datetime =
  ordinal :: nat
  hour :: nat
  minute :: nat
  second :: nat
  microsecond :: nat

definition MAXORDINAL :: nat where
  "MAXORDINAL = 3652059"

definition valid_datetime :: "datetime \<Rightarrow> bool" where
  "valid_datetime d =
     (1 \<le> ordinal d \<and> ordinal d \<le> MAXORDINAL \<and> hour d < 24 \<and> minute d < 60
      \<and> second d < 60 \<and> microsecond d < 1000000)"

datatype py_error = KeyError | ValueError | OverflowError

text \<open>
  \<^verbatim>\<open>now.replace(hour=h, minute=m, second=s, microsecond=us)\<close>, which raises
  \<^verbatim>\<open>ValueError\<close> for a field out of range.
\<close>

definition replace_time :: "datetime \<Rightarrow> nat \<Rightarrow> nat \<Rightarrow> nat \<Rightarrow> nat \<Rightarrow> py_error + datetime" where
  "replace_time d h m s us =
     (if h < 24 \<and> m < 60 \<and> s < 60 \<and> us < 1000000
      then Inr (d\<lparr>hour := h, minute := m, second := s, microsecond := us\<rparr>)
      else Inl ValueError)"

text \<open>
  \<^verbatim>\<open>d + timedelta(minutes=n)\<close>: the seconds of the day are carried into the ordinal,
  and a date after 9999-12-31 raises \<^verbatim>\<open>OverflowError\<close>.
\<close>

definition add_minutes :: "datetime \<Rightarrow> nat \<Rightarrow> py_error + datetime" where
  "add_minutes d n =
     (let secs = hour d * 3600 + minute d * 60 + second d + n * 60;
          days = ordinal d + secs div 86400;
          rem = secs mod 86400
      in if 0 < days \<and> days \<le> MAXORDINAL
         then Inr (d\<lparr>ordinal := days, hour := rem div 3600, minute := (rem mod 3600) div 60,
                     second := rem mod 60\<rparr>)
         else Inl OverflowError)"

text \<open>Comparison of two datetimes: field by field, the date first.\<close>

definition dt_less :: "datetime \<Rightarrow> datetime \<Rightarrow> bool" where
  "dt_less a b =
     (if ordinal a \<noteq> ordinal b then ordinal a < ordinal b
      else if hour a \<noteq> hour b then hour a < hour b
      else if minute a \<noteq> minute b then minute a < minute b
      else if second a \<noteq> second b then second a < second b
      else microsecond a < microsecond b)"

definition dt_le :: "datetime \<Rightarrow> datetime \<Rightarrow> bool" where
  "dt_le a b = (dt_less a b \<or> a = b)"

text \<open>
  Microseconds since the start of ordinal 0, and \<^verbatim>\<open>(a - b).total_seconds()\<close> and
  \<^verbatim>\<open>(a - b).seconds\<close> (the seconds field of the normalised difference, between 0 and
  86399) on top of it.
\<close>

definition to_microseconds :: "datetime \<Rightarrow> int" where
  "to_microseconds d =
     (((int (ordinal d) * 24 + int (hour d)) * 60 + int (minute d)) * 60 + int (second d)) * 1000000
       + int (microsecond d)"

definition total_seconds :: "datetime \<Rightarrow> datetime \<Rightarrow> rat" where
  "total_seconds a b = of_int (to_microseconds a - to_microseconds b) / 1000000"

definition delta_seconds :: "datetime \<Rightarrow> datetime \<Rightarrow> rat" where
  "delta_seconds a b = of_int (((to_microseconds a - to_microseconds b) div 1000000) mod 86400)"

text \<open>\<^verbatim>\<open>get_next_10min_run(now)\<close>.\<close>

definition get_next_10min_run :: "datetime \<Rightarrow> py_error + datetime" where
  "get_next_10min_run now =
     (let next_minute = ((minute now div 10) + 1) * 10;
          next_hour = hour now;
          (next_minute, next_hour) =
             (if next_minute \<ge> 60 then (next_minute - 60, next_hour + 1)
              else (next_minute, next_hour))
      in case replace_time now (next_hour mod 24) next_minute 0 0 of
           Inl e \<Rightarrow> Inl e
         | Inr next_run \<Rightarrow>
             if dt_le next_run now then add_minutes next_run 10 else Inr next_run)"

text \<open>What the 10-minute grid asks of an instant.\<close>

definition on_10min_grid :: "datetime \<Rightarrow> bool" where
  "on_10min_grid d = (second d = 0 \<and> microsecond d = 0 \<and> minute d mod 10 = 0)"

section \<open>The outside world\<close>

text \<open>
  The quote source and the clock are the program's two inputs. \<open>get_analysis env k t i\<close>
  is what the \<open>k\<close>-th call (from 0) of \<^verbatim>\<open>TA_Handler(symbol=t, interval=i).get_analysis()\<close>
  followed by \<^verbatim>\<open>.indicators["close"]\<close> does: it yields the close price or raises an
  exception, kept as its message \<^verbatim>\<open>str(e)\<close>. \<open>datetime_now env k\<close> is what the \<open>k\<close>-th
  call of \<^verbatim>\<open>datetime.now(eastern)\<close> returns.
\<close>

datatype interval = INTERVAL_1_MINUTE | INTERVAL_15_MINUTES

datatype fetch_result = Close rat | Raise string

record env =
  get_analysis :: "nat \<Rightarrow> string \<Rightarrow> interval \<Rightarrow> fetch_result"
  datetime_now :: "nat \<Rightarrow> datetime"

text \<open>
  A row of the signal log, before \<^verbatim>\<open>csv.writer\<close> formats its fields; the fields are
  named as the columns of the header row.
\<close>

record signal_record =
  Timestamp :: datetime
  Ticker :: string
  Price :: rat
  Short_MA :: pyfloat
  Long_MA :: pyfloat
  Signal :: signal

text \<open>
  What the program does to the world, in order: a quote request, a \<^verbatim>\<open>time.sleep\<close> of
  some seconds, a row appended to \<^verbatim>\<open>LOG_FILE\<close>, a reading of the clock.
\<close>

datatype event =
    Fetched string interval
  | Slept rat
  | Logged signal_record
  | ClockRead

fun is_fetch :: "event \<Rightarrow> bool" where
  "is_fetch (Fetched _ _) = True"
| "is_fetch _ = False"

fun is_clock_read :: "event \<Rightarrow> bool" where
  "is_clock_read ClockRead = True"
| "is_clock_read _ = False"

definition fetch_count :: "event list \<Rightarrow> nat" where
  "fetch_count w = length (filter is_fetch w)"

definition clock_count :: "event list \<Rightarrow> nat" where
  "clock_count w = length (filter is_clock_read w)"

fun logged :: "event list \<Rightarrow> signal_record list" where
  "logged [] = []"
| "logged (Logged r # w) = r # logged w"
| "logged (_ # w) = logged w"

definition now_eastern :: "env \<Rightarrow> event list \<Rightarrow> datetime \<times> event list" where
  "now_eastern env w = (datetime_now env (clock_count w), w @ [ClockRead])"

section \<open>Fetching a price\<close>

text \<open>
  The \<^verbatim>\<open>while attempt < retries\<close> loop of \<^verbatim>\<open>get_tradingview_price\<close>, from a given value
  of \<^verbatim>\<open>attempt\<close>. The result is the returned price (\<open>None\<close> for Python's \<^verbatim>\<open>None\<close>) and
  the events so far. \<^verbatim>\<open>time.sleep\<close> raises \<^verbatim>\<open>ValueError\<close> for a negative duration, and
  the handler that calls it is not itself guarded.
\<close>

function fetch_loop ::
  "env \<Rightarrow> string \<Rightarrow> interval \<Rightarrow> int \<Rightarrow> rat \<Rightarrow> int \<Rightarrow> event list
     \<Rightarrow> py_error + (rat option \<times> event list)" where
  "fetch_loop env ticker intv retries delay attempt w =
     (if attempt < retries then
        (case get_analysis env (fetch_count w) ticker intv of
           Close p \<Rightarrow> Inr (Some p, w @ [Fetched ticker intv])
         | Raise err_msg \<Rightarrow>
             if sublist ''429'' err_msg then
               (if delay < 0 then Inl ValueError
                else fetch_loop env ticker intv retries delay (attempt + 1)
                       (w @ [Fetched ticker intv, Slept delay]))
             else Inr (None, w @ [Fetched ticker intv]))
      else Inr (None, w))"
  by pat_completeness auto
termination
  by (relation "measure (\<lambda>(env, ticker, intv, retries, delay, attempt, w). nat (retries - attempt))")
     auto

declare fetch_loop.simps [simp del]

definition get_tradingview_price ::
  "env \<Rightarrow> string \<Rightarrow> interval \<Rightarrow> int \<Rightarrow> rat \<Rightarrow> event list
     \<Rightarrow> py_error + (rat option \<times> event list)" where
  "get_tradingview_price env ticker intv retries delay w =
     fetch_loop env ticker intv retries delay 0 w"

section \<open>Logging and preloading\<close>

definition log_signal ::
  "datetime \<Rightarrow> string \<Rightarrow> rat \<Rightarrow> pyfloat \<Rightarrow> pyfloat \<Rightarrow> signal \<Rightarrow> event list
     \<Rightarrow> event list" where
  "log_signal ts tk pr sma lma sig w =
     w @ [Logged \<lparr>Timestamp = ts, Ticker = tk, Price = pr, Short_MA = sma, Long_MA = lma,
                  Signal = sig\<rparr>]"

text \<open>\<^verbatim>\<open>for _ in range(n): history_deque.append(last_price)\<close>\<close>

fun append_times :: "nat \<Rightarrow> deque \<Rightarrow> rat \<Rightarrow> deque" where
  "append_times 0 d x = d"
| "append_times (Suc n) d x = append_times n (deque_append d x) x"

text \<open>
  \<^verbatim>\<open>preload_price_history\<close>: the whole body is inside \<^verbatim>\<open>try ... except Exception\<close>, and
  both handlers only print, so the function always returns; the model gives the deque
  after the call.
\<close>

definition preload_price_history ::
  "env \<Rightarrow> string \<Rightarrow> deque \<Rightarrow> interval \<Rightarrow> event list \<Rightarrow> deque \<times> event list" where
  "preload_price_history env ticker history_deque intv w =
     (case get_analysis env (fetch_count w) ticker intv of
        Close last_price \<Rightarrow>
          (append_times LONG_MA history_deque last_price, w @ [Fetched ticker intv])
      | Raise err_msg \<Rightarrow> (history_deque, w @ [Fetched ticker intv]))"

section \<open>The monitoring loop\<close>

text \<open>
  The three dictionaries of \<^verbatim>\<open>main\<close>, keyed by ticker, and the events so far. A value of
  \<open>last_signal\<close> is \<open>None\<close> for Python's \<^verbatim>\<open>None\<close>. Indexing a dictionary with a missing
  key raises \<^verbatim>\<open>KeyError\<close>.
\<close>

record state =
  price_history_1min :: "string \<rightharpoonup> deque"
  price_history_15min :: "string \<rightharpoonup> deque"
  last_signal :: "string \<rightharpoonup> signal option"
  world :: "event list"

text \<open>
  The local variable \<^verbatim>\<open>history\<close> is bound to one of the two dictionaries, so an append
  through it changes that dictionary.
\<close>

datatype history_ref = Ref_1min | Ref_15min

fun history_of :: "history_ref \<Rightarrow> state \<Rightarrow> (string \<rightharpoonup> deque)" where
  "history_of Ref_1min st = price_history_1min st"
| "history_of Ref_15min st = price_history_15min st"

fun history_store :: "history_ref \<Rightarrow> string \<Rightarrow> deque \<Rightarrow> state \<Rightarrow> state" where
  "history_store Ref_1min t d st = st\<lparr>price_history_1min := (price_history_1min st)(t \<mapsto> d)\<rparr>"
| "history_store Ref_15min t d st = st\<lparr>price_history_15min := (price_history_15min st)(t \<mapsto> d)\<rparr>"

text \<open>
  The body of \<^verbatim>\<open>for ticker in TICKERS\<close> in the polling branch: fetch with the default
  \<^verbatim>\<open>retries=3, delay=5\<close>, \<^verbatim>\<open>continue\<close> on \<^verbatim>\<open>None\<close>, otherwise observe the price, log on
  a change of signal, and sleep one second.
\<close>

definition process_ticker ::
  "env \<Rightarrow> interval \<Rightarrow> history_ref \<Rightarrow> string \<Rightarrow> state \<Rightarrow> py_error + state" where
  "process_ticker env tv_interval history ticker st =
     (case get_tradingview_price env ticker tv_interval 3 5 (world st) of
        Inl e \<Rightarrow> Inl e
      | Inr (None, w1) \<Rightarrow> Inr (st\<lparr>world := w1\<rparr>)
      | Inr (Some current_price, w1) \<Rightarrow>
          (case history_of history st ticker of
             None \<Rightarrow> Inl KeyError
           | Some dq \<Rightarrow>
               (case get_swing_signal dq current_price of
                  (dq', signal, short_ma, long_ma) \<Rightarrow>
                    let st1 = (history_store history ticker dq' st)\<lparr>world := w1\<rparr>
                    in case last_signal st1 ticker of
                         None \<Rightarrow> Inl KeyError
                       | Some stored \<Rightarrow>
                           if Some signal \<noteq> stored then
                             (case now_eastern env (world st1) of
                                (timestamp, w2) \<Rightarrow>
                                  Inr (st1\<lparr>last_signal := (last_signal st1)(ticker \<mapsto> Some signal),
                                           world := log_signal timestamp ticker current_price
                                                      short_ma long_ma signal w2 @ [Slept 1]\<rparr>))
                           else Inr (st1\<lparr>world := world st1 @ [Slept 1]\<rparr>))))"

fun for_tickers ::
  "env \<Rightarrow> interval \<Rightarrow> history_ref \<Rightarrow> string list \<Rightarrow> state \<Rightarrow> py_error + state" where
  "for_tickers env tv_interval history [] st = Inr st"
| "for_tickers env tv_interval history (ticker # rest) st =
     (case process_ticker env tv_interval history ticker st of
        Inl e \<Rightarrow> Inl e
      | Inr st' \<Rightarrow> for_tickers env tv_interval history rest st')"

text \<open>The dictionaries as \<^verbatim>\<open>main\<close> creates them, one fresh value per ticker.\<close>

definition dict_of_keys :: "string list \<Rightarrow> 'v \<Rightarrow> (string \<rightharpoonup> 'v)" where
  "dict_of_keys ks v = map_of (map (\<lambda>k. (k, v)) ks)"

definition initial_state :: state where
  "initial_state =
     \<lparr>price_history_1min = dict_of_keys TICKERS (deque_new (Some LONG_MA)),
      price_history_15min = dict_of_keys TICKERS (deque_new (Some LONG_MA)),
      last_signal = dict_of_keys TICKERS None,
      world = []\<rparr>"

text \<open>The preload loop of \<^verbatim>\<open>main\<close>, with its sleeps of 1.5 seconds.\<close>

fun preload_all :: "env \<Rightarrow> string list \<Rightarrow> state \<Rightarrow> py_error + state" where
  "preload_all env [] st = Inr st"
| "preload_all env (ticker # rest) st =
     (case price_history_1min st ticker of
        None \<Rightarrow> Inl KeyError
      | Some d1 \<Rightarrow>
          (case preload_price_history env ticker d1 INTERVAL_1_MINUTE (world st) of
             (d1', w1) \<Rightarrow>
               let st1 = st\<lparr>price_history_1min := (price_history_1min st)(ticker \<mapsto> d1'),
                              world := w1 @ [Slept (3 / 2)]\<rparr>
               in case price_history_15min st1 ticker of
                    None \<Rightarrow> Inl KeyError
                  | Some d15 \<Rightarrow>
                      (case preload_price_history env ticker d15 INTERVAL_15_MINUTES (world st1) of
                         (d15', w2) \<Rightarrow>
                           preload_all env rest
                             (st1\<lparr>price_history_15min := (price_history_15min st1)(ticker \<mapsto> d15'),
                                   world := w2 @ [Slept (3 / 2)]\<rparr>))))"

text \<open>
  The session times computed once at startup: \<^verbatim>\<open>market_open\<close>, \<^verbatim>\<open>market_close\<close> and
  \<^verbatim>\<open>high_freq_end\<close>, from the clock reading \<^verbatim>\<open>now\<close>.
\<close>

definition session_times :: "datetime \<Rightarrow> py_error + (datetime \<times> datetime \<times> datetime)" where
  "session_times now =
     (case replace_time now 9 30 0 0 of
        Inl e \<Rightarrow> Inl e
      | Inr market_open \<Rightarrow>
          (case replace_time now 16 0 0 0 of
             Inl e \<Rightarrow> Inl e
           | Inr market_close \<Rightarrow>
               (case add_minutes market_open HIGH_FREQ_DURATION of
                  Inl e \<Rightarrow> Inl e
                | Inr high_freq_end \<Rightarrow> Inr (market_open, market_close, high_freq_end))))"

text \<open>
  One pass through the body of \<^verbatim>\<open>while True\<close>: either the loop goes on with a new state
  or it ends (\<^verbatim>\<open>break\<close>).
\<close>

datatype loop_step = Continue state | Break state

definition main_iteration ::
  "env \<Rightarrow> datetime \<Rightarrow> datetime \<Rightarrow> datetime \<Rightarrow> state \<Rightarrow> py_error + loop_step" where
  "main_iteration env market_open market_close high_freq_end st =
     (case now_eastern env (world st) of
        (now, w0) \<Rightarrow>
          let st0 = st\<lparr>world := w0\<rparr>
          in if dt_le market_open now \<and> dt_le now market_close then
               (case (if dt_less now high_freq_end
                      then Inr (HIGH_FREQ_INTERVAL, INTERVAL_1_MINUTE, Ref_1min, st0)
                      else (case get_next_10min_run now of
                              Inl e \<Rightarrow> Inl e
                            | Inr next_run \<Rightarrow>
                                (case now_eastern env (world st0) of
                                   (now2, w1) \<Rightarrow>
                                     Inr (max 5 (total_seconds next_run now2),
                                          INTERVAL_15_MINUTES, Ref_15min, st0\<lparr>world := w1\<rparr>)))) of
                  Inl e \<Rightarrow> Inl e
                | Inr (sleep_interval, tv_interval, history, st1) \<Rightarrow>
                    (case for_tickers env tv_interval history TICKERS st1 of
                       Inl e \<Rightarrow> Inl e
                     | Inr st2 \<Rightarrow> Inr (Continue (st2\<lparr>world := world st2 @ [Slept sleep_interval]\<rparr>))))
             else if dt_less market_close now then Inr (Break st0)
             else Inr (Continue
                        (st0\<lparr>world := world st0 @ [Slept (max 30 (delta_seconds market_open now))]\<rparr>)))"

text \<open>
  \<^verbatim>\<open>main\<close>: the loop may run for ever, so it is given fuel, and \<open>None\<close> is the run that
  has not ended within it.
\<close>

fun main_loop ::
  "nat \<Rightarrow> env \<Rightarrow> datetime \<Rightarrow> datetime \<Rightarrow> datetime \<Rightarrow> state \<Rightarrow> (py_error + state) option" where
  "main_loop 0 env market_open market_close high_freq_end st = None"
| "main_loop (Suc fuel) env market_open market_close high_freq_end st =
     (case main_iteration env market_open market_close high_freq_end st of
        Inl e \<Rightarrow> Some (Inl e)
      | Inr (Break st') \<Rightarrow> Some (Inr st')
      | Inr (Continue st') \<Rightarrow> main_loop fuel env market_open market_close high_freq_end st')"

definition main :: "nat \<Rightarrow> env \<Rightarrow> (py_error + state) option" where
  "main fuel env =
     (case preload_all env TICKERS initial_state of
        Inl e \<Rightarrow> Some (Inl e)
      | Inr st \<Rightarrow>
          (case now_eastern env (world st) of
             (now, w) \<Rightarrow>
               (case session_times now of
                  Inl e \<Rightarrow> Some (Inl e)
                | Inr (market_open, market_close, high_freq_end) \<Rightarrow>
                    main_loop fuel env market_open market_close high_freq_end (st\<lparr>world := w\<rparr>))))"

section \<open>Example worlds\<close>

text \<open>
  Concrete quote sources and a clock, for running the model: a source whose \<open>k\<close>-th
  answer is the price \<open>k + 1\<close>, one that always answers with a rate-limit error, one
  that always fails otherwise, one that is rate-limited once and fails otherwise from then
  on, and a clock that stands at 12:00 on ordinal 739000 (2024-04-24).
\<close>

definition noon :: datetime where
  "noon = \<lparr>ordinal = 739000, hour = 12, minute = 0, second = 0, microsecond = 0\<rparr>"

definition ascending_env :: env where
  "ascending_env =
     \<lparr>get_analysis = (\<lambda>k t i. Close (of_nat k + 1)), datetime_now = (\<lambda>k. noon)\<rparr>"

definition rate_limited_env :: env where
  "rate_limited_env =
     \<lparr>get_analysis = (\<lambda>k t i. Raise ''HTTP Error 429: Too Many Requests''),
      datetime_now = (\<lambda>k. noon)\<rparr>"

definition unavailable_env :: env where
  "unavailable_env =
     \<lparr>get_analysis = (\<lambda>k t i. Raise ''Exchange or symbol not found.''),
      datetime_now = (\<lambda>k. noon)\<rparr>"

definition limited_once_env :: env where
  "limited_once_env =
     \<lparr>get_analysis = (\<lambda>k t i. if k = 0 then Raise ''HTTP Error 429: Too Many Requests''
                                 else Raise ''Exchange or symbol not found.''),
      datetime_now = (\<lambda>k. noon)\<rparr>"

text \<open>
  A world for the end of the high-frequency phase: the clock reads 10:00:00 at its first
  reading and 10:00:02 from then on, and every quote request fails.
\<close>

definition ten_oclock :: datetime where
  "ten_oclock = \<lparr>ordinal = 739000, hour = 10, minute = 0, second = 0, microsecond = 0\<rparr>"

definition boundary_env :: env where
  "boundary_env =
     \<lparr>get_analysis = (\<lambda>k t i. Raise ''Exchange or symbol not found.''),
      datetime_now = (\<lambda>k. if k = 0 then ten_oclock else ten_oclock\<lparr>second := 2\<rparr>)\<rparr>"

text \<open>
  What a preload makes of an empty window of capacity \<open>LONG_MA\<close>, by the outcome of its
  quote request: \<open>LONG_MA\<close> copies of the price, or the empty window again.
\<close>

fun preloaded :: "fetch_result \<Rightarrow> deque" where
  "preloaded (Close p) = \<lparr>items = replicate LONG_MA p, maxlen = Some LONG_MA\<rparr>"
| "preloaded (Raise err_msg) = deque_new (Some LONG_MA)"


definition quote_172_63 :: rat where
  "quote_172_63 = 1518469538423767 / 8796093022208"

text \<open>
  Feeding a list of prices into one window, one \<^verbatim>\<open>get_swing_signal\<close> call per price, and
  collecting what each call returns.
\<close>

fun observe_all :: "deque \<Rightarrow> rat list \<Rightarrow> (signal \<times> pyfloat \<times> pyfloat) list" where
  "observe_all d [] = []"
| "observe_all d (p # ps) =
     (case get_swing_signal d p of (d', out) \<Rightarrow> out # observe_all d' ps)"

text \<open>A fetch outcome that the program treats as a rate limit: its message contains 429.\<close>

fun rate_limited :: "fetch_result \<Rightarrow> bool" where
  "rate_limited (Close p) = False"
| "rate_limited (Raise err_msg) = sublist ''429'' err_msg"

section \<open>The log of one ticker\<close>

text \<open>
  The rows of the log that belong to one ticker, and the condition that ties them to
  \<open>last_signal\<close>: no two consecutive rows of the ticker carry the same signal, and if
  the ticker has a row, the signal of its last row is the stored one.
\<close>

definition rows_of :: "string \<Rightarrow> event list \<Rightarrow> signal_record list" where
  "rows_of t w = filter (\<lambda>r. Ticker r = t) (logged w)"

definition log_agrees :: "string \<Rightarrow> state \<Rightarrow> bool" where
  "log_agrees t st =
     (let sigs = map Signal (rows_of t (world st))
      in distinct_adj sigs \<and> (sigs = [] \<or> last_signal st t = Some (Some (last sigs))))"

section \<open>Properties of the window and the crossover\<close>


lemma deque_append_maxlen: "maxlen (deque_append d x) = maxlen d"
  by (simp add: deque_append_def Let_def split: option.splits)

lemma deque_append_items:
  "items (deque_append d x) =
     (case maxlen d of
        None \<Rightarrow> items d @ [x]
      | Some m \<Rightarrow> if m < Suc (length (items d)) then tl (items d @ [x]) else items d @ [x])"
  by (simp add: deque_append_def Let_def split: option.splits)

subsection \<open>Evaluating float arithmetic\<close>

lemma floor_rat_numeral [simp]:
  "\<lfloor>(numeral a :: rat) / numeral b\<rfloor> = numeral a div numeral b"
  "\<lfloor>- ((numeral a :: rat) / numeral b)\<rfloor> = - numeral a div numeral b"
  using floor_divide_of_int_eq [of "numeral a" "numeral b", where ?'a = rat]
        floor_divide_of_int_eq [of "- numeral a" "numeral b", where ?'a = rat]
  by simp_all

lemma ceiling_rat_numeral [simp]:
  "\<lceil>(numeral a :: rat) / numeral b\<rceil> = - (- numeral a div numeral b)"
  "\<lceil>- ((numeral a :: rat) / numeral b)\<rceil> = - (numeral a div numeral b)"
  unfolding ceiling_def by simp_all

lemmas float_eval =
  round_double_def binade_def pow2_def round_half_even_def bit_length.simps Let_def

subsection \<open>Order on floats\<close>

lemma round_double_not_NaN [simp]: "round_double x \<noteq> NaN"
  by (simp add: round_double_def Let_def)

lemma fadd_Finite_not_NaN: "a \<noteq> NaN \<Longrightarrow> fadd a (Finite x) \<noteq> NaN"
  by (cases a) simp_all

lemma foldl_fadd_not_NaN: "a \<noteq> NaN \<Longrightarrow> foldl fadd a (map Finite xs) \<noteq> NaN"
  by (induction xs arbitrary: a) (simp_all add: fadd_Finite_not_NaN)

lemma fsum_not_NaN [simp]: "fsum xs \<noteq> NaN"
  by (simp add: fsum_def foldl_fadd_not_NaN)

lemma fdiv_not_NaN: "a \<noteq> NaN \<Longrightarrow> fdiv a n \<noteq> NaN"
  by (cases a) simp_all

lemma fmean_not_NaN [simp]: "fmean xs \<noteq> NaN"
  by (simp add: fmean_def fdiv_not_NaN)


lemma fless_irrefl [simp]: "\<not> fless a a"
  by (cases a) simp_all



lemma replicate_15: "replicate 15 x = [x, x, x, x, x, x, x, x, x, x, x, x, x, x, x]"
  by (simp add: numeral_eq_Suc)

lemma replicate_14: "replicate 14 x = [x, x, x, x, x, x, x, x, x, x, x, x, x, x]"
  by (simp add: numeral_eq_Suc)

lemma replicate_13: "replicate 13 x = [x, x, x, x, x, x, x, x, x, x, x, x, x]"
  by (simp add: numeral_eq_Suc)

lemma favg_11_to_15: "fdiv (fsum [11, 12, 13, 14, 15]) 5 = Finite 13"
  by (simp add: fsum_def float_eval)

lemma favg_1_to_15:
  "fdiv (fsum [1, 2, 3, 4, 5, 6, 7, 8, 9, 10, 11, 12, 13, 14, 15]) 15 = Finite 8"
  by (simp add: fsum_def float_eval)



lemma get_swing_signal_1_to_15:
  "get_swing_signal \<lparr>items = [1, 2, 3, 4, 5, 6, 7, 8, 9, 10, 11, 12, 13, 14], maxlen = Some 15\<rparr> 15
     = (\<lparr>items = [1, 2, 3, 4, 5, 6, 7, 8, 9, 10, 11, 12, 13, 14, 15], maxlen = Some 15\<rparr>,
        BUY, Finite 13, Finite 8)"
  by (simp add: get_swing_signal_def deque_append_def LONG_MA_def SHORT_MA_def slice_last_def
        favg_11_to_15 favg_1_to_15)



text \<open>The same on a flat window of the quote 172.63.\<close>

lemma get_swing_signal_flat_172_63:
  "get_swing_signal \<lparr>items = replicate 14 quote_172_63, maxlen = Some 15\<rparr> quote_172_63
     = (\<lparr>items = replicate 15 quote_172_63, maxlen = Some 15\<rparr>, SELL, Finite quote_172_63,
        Finite (3036939076847535 / 17592186044416))"
proof -
  have s: "fdiv (fsum [quote_172_63, quote_172_63, quote_172_63, quote_172_63, quote_172_63]) 5
             = Finite quote_172_63"
    by (simp add: fsum_def quote_172_63_def float_eval)
  have l: "fdiv (fsum (replicate 15 quote_172_63)) 15 = Finite (3036939076847535 / 17592186044416)"
    by (simp add: replicate_15 fsum_def quote_172_63_def float_eval)
  show ?thesis
    using s l
    by (simp add: get_swing_signal_def deque_append_def LONG_MA_def SHORT_MA_def slice_last_def
          replicate_14 replicate_15) (simp add: quote_172_63_def)
qed

text \<open>
  C6. When the window is still shorter than \<open>LONG_MA\<close> after the append,
  \<^verbatim>\<open>get_swing_signal\<close> returns exactly (HOLD, 0, 0), and the window afterwards is the
  old one with the price appended, its oldest entry dropped if it was at capacity;
  \<^verbatim>\<open>maxlen\<close> is unchanged.
\<close>

theorem get_swing_signal_insufficient:
  assumes "deque_ok d" and "length (items (deque_append d p)) < LONG_MA"
  shows "get_swing_signal d p = (deque_append d p, HOLD, Finite 0, Finite 0)
         \<and> maxlen (deque_append d p) = maxlen d
         \<and> items (deque_append d p) =
             (if maxlen d = Some (length (items d)) then tl (items d @ [p]) else items d @ [p])"
  using assms
  by (auto simp: get_swing_signal_def Let_def deque_append_maxlen deque_append_items deque_ok_def
           split: option.splits)

theorem get_swing_signal_insufficient_witness:
  "deque_ok \<lparr>items = [7, 9], maxlen = Some 15\<rparr>
   \<and> length (items (deque_append \<lparr>items = [7, 9], maxlen = Some 15\<rparr> 4)) < LONG_MA
   \<and> get_swing_signal \<lparr>items = [7, 9], maxlen = Some 15\<rparr> 4
       = (\<lparr>items = [7, 9, 4], maxlen = Some 15\<rparr>, HOLD, Finite 0, Finite 0)"
proof -
  let ?d = "\<lparr>items = [7, 9], maxlen = Some 15\<rparr>"
  have ok: "deque_ok ?d"
    by (simp add: deque_ok_def)
  have len: "length (items (deque_append ?d 4)) < LONG_MA"
    by (simp add: deque_append_def LONG_MA_def)
  have app: "deque_append ?d 4 = \<lparr>items = [7, 9, 4], maxlen = Some 15\<rparr>"
    by (simp add: deque_append_def)
  from get_swing_signal_insufficient [OF ok len] show ?thesis
    using ok len by (simp add: app)
qed

text \<open>
  The same at capacity, for a window smaller than \<open>LONG_MA\<close>: the oldest price goes.
\<close>

lemma get_swing_signal_insufficient_evicts:
  "get_swing_signal \<lparr>items = [7, 9], maxlen = Some 2\<rparr> 4
     = (\<lparr>items = [9, 4], maxlen = Some 2\<rparr>, HOLD, Finite 0, Finite 0)"
  by (simp add: get_swing_signal_def deque_append_def LONG_MA_def)

section \<open>Properties of fetching\<close>

lemma fetch_count_append [simp]: "fetch_count (w @ v) = fetch_count w + fetch_count v"
  by (simp add: fetch_count_def)

lemma fetch_count_simps [simp]:
  "fetch_count [] = 0"
  "fetch_count (Fetched t i # w) = Suc (fetch_count w)"
  "fetch_count (Slept d # w) = fetch_count w"
  "fetch_count (Logged r # w) = fetch_count w"
  "fetch_count (ClockRead # w) = fetch_count w"
  by (simp_all add: fetch_count_def)

lemma fetch_loop_close:
  "attempt < retries \<Longrightarrow> get_analysis env (fetch_count w) t i = Close p
   \<Longrightarrow> fetch_loop env t i retries delay attempt w = Inr (Some p, w @ [Fetched t i])"
  by (subst fetch_loop.simps) simp

lemma fetch_loop_other_error:
  "attempt < retries \<Longrightarrow> get_analysis env (fetch_count w) t i = Raise m \<Longrightarrow> \<not> sublist ''429'' m
   \<Longrightarrow> fetch_loop env t i retries delay attempt w = Inr (None, w @ [Fetched t i])"
  by (subst fetch_loop.simps) simp

lemma fetch_loop_exhausted:
  "\<not> attempt < retries \<Longrightarrow> fetch_loop env t i retries delay attempt w = Inr (None, w)"
  by (subst fetch_loop.simps) simp

lemma fetch_loop_rate_limited_step:
  "attempt < retries \<Longrightarrow> rate_limited (get_analysis env (fetch_count w) t i) \<Longrightarrow> 0 \<le> delay
   \<Longrightarrow> fetch_loop env t i retries delay attempt w
       = fetch_loop env t i retries delay (attempt + 1) (w @ [Fetched t i, Slept delay])"
  by (subst fetch_loop.simps) (auto split: fetch_result.splits)

lemma fetch_loop_all_rate_limited:
  assumes "0 \<le> delay"
    and "n = nat (retries - attempt)"
    and "\<forall>k<n. rate_limited (get_analysis env (fetch_count w + k) t i)"
  shows "fetch_loop env t i retries delay attempt w
           = Inr (None, w @ concat (replicate n [Fetched t i, Slept delay]))"
  using assms(2,3)
proof (induction n arbitrary: attempt w)
  case 0
  then show ?case by (simp add: fetch_loop_exhausted)
next
  case (Suc n)
  from Suc.prems(1) have lt: "attempt < retries" and n: "n = nat (retries - (attempt + 1))"
    by linarith+
  have first: "rate_limited (get_analysis env (fetch_count w) t i)"
    using Suc.prems(2) [rule_format, of 0] by simp
  have rest: "\<forall>k<n. rate_limited (get_analysis env (fetch_count (w @ [Fetched t i, Slept delay]) + k) t i)"
  proof (intro allI impI)
    fix k assume "k < n"
    then have "Suc k < Suc n" by simp
    with Suc.prems(2) have "rate_limited (get_analysis env (fetch_count w + Suc k) t i)" by blast
    then show "rate_limited (get_analysis env (fetch_count (w @ [Fetched t i, Slept delay]) + k) t i)"
      by simp
  qed
  show ?case
    using fetch_loop_rate_limited_step [OF lt first assms(1)] Suc.IH [OF n rest]
    by simp
qed

lemma fetch_loop_then_other_error:
  assumes "0 \<le> delay"
  shows "attempt + int j < retries
         \<Longrightarrow> \<forall>k<j. rate_limited (get_analysis env (fetch_count w + k) t i)
         \<Longrightarrow> get_analysis env (fetch_count w + j) t i = Raise m
         \<Longrightarrow> \<not> sublist ''429'' m
         \<Longrightarrow> fetch_loop env t i retries delay attempt w
               = Inr (None, w @ concat (replicate j [Fetched t i, Slept delay]) @ [Fetched t i])"
proof (induction j arbitrary: attempt w)
  case 0
  then show ?case by (simp add: fetch_loop_other_error)
next
  case (Suc j)
  from Suc.prems(1) have lt: "attempt < retries" and lt': "(attempt + 1) + int j < retries"
    by simp_all
  have first: "rate_limited (get_analysis env (fetch_count w) t i)"
    using Suc.prems(2) [rule_format, of 0] by simp
  let ?w = "w @ [Fetched t i, Slept delay]"
  have rest: "\<forall>k<j. rate_limited (get_analysis env (fetch_count ?w + k) t i)"
  proof (intro allI impI)
    fix k assume "k < j"
    then have "Suc k < Suc j" by simp
    with Suc.prems(2) have "rate_limited (get_analysis env (fetch_count w + Suc k) t i)" by blast
    then show "rate_limited (get_analysis env (fetch_count ?w + k) t i)" by simp
  qed
  have last: "get_analysis env (fetch_count ?w + j) t i = Raise m"
    using Suc.prems(3) by simp
  show ?case
    using fetch_loop_rate_limited_step [OF lt first assms] Suc.IH [OF lt' rest last Suc.prems(4)]
    by simp
qed

lemma process_ticker_skip:
  "get_tradingview_price env t i 3 5 (world st) = Inr (None, w1)
   \<Longrightarrow> process_ticker env i h t st = Inr (st\<lparr>world := w1\<rparr>)"
  by (simp add: process_ticker_def)

text \<open>
  C5. When every fetch attempt is answered with a rate-limit error, \<^verbatim>\<open>get_tradingview_price\<close>
  makes exactly \<^verbatim>\<open>retries\<close> attempts, sleeps \<^verbatim>\<open>delay\<close> seconds after each of them, and
  returns \<^verbatim>\<open>None\<close>. The caller, with the defaults 3 and 5, then skips the ticker: its
  windows and \<open>last_signal\<close> are as before, nothing is raised, and the loop goes on with
  the remaining tickers.
\<close>

theorem rate_limited_fetch_skips_tick:
  assumes "0 \<le> delay"
    and "\<forall>k<nat retries. rate_limited (get_analysis env (fetch_count w + k) ticker intv)"
    and "\<forall>k<3. rate_limited (get_analysis env (fetch_count (world st) + k) ticker intv)"
  shows "get_tradingview_price env ticker intv retries delay w
           = Inr (None, w @ concat (replicate (nat retries) [Fetched ticker intv, Slept delay]))
         \<and> process_ticker env intv h ticker st
             = Inr (st\<lparr>world := world st @ concat (replicate 3 [Fetched ticker intv, Slept 5])\<rparr>)
         \<and> for_tickers env intv h (ticker # rest) st
             = for_tickers env intv h rest
                 (st\<lparr>world := world st @ concat (replicate 3 [Fetched ticker intv, Slept 5])\<rparr>)"
proof -
  have a: "get_tradingview_price env ticker intv retries delay w
             = Inr (None, w @ concat (replicate (nat retries) [Fetched ticker intv, Slept delay]))"
    unfolding get_tradingview_price_def
    using fetch_loop_all_rate_limited [OF assms(1) _ assms(2)] by simp
  have "get_tradingview_price env ticker intv 3 5 (world st)
          = Inr (None, world st @ concat (replicate (nat 3) [Fetched ticker intv, Slept 5]))"
    unfolding get_tradingview_price_def
    using assms(3) by (intro fetch_loop_all_rate_limited) simp_all
  then have b: "process_ticker env intv h ticker st
                  = Inr (st\<lparr>world := world st @ concat (replicate 3 [Fetched ticker intv, Slept 5])\<rparr>)"
    by (simp add: process_ticker_skip)
  from a b show ?thesis by simp
qed

theorem rate_limited_fetch_skips_tick_witness:
  "get_tradingview_price rate_limited_env ''TSLA'' INTERVAL_1_MINUTE 3 5 []
     = Inr (None, [Fetched ''TSLA'' INTERVAL_1_MINUTE, Slept 5,
                   Fetched ''TSLA'' INTERVAL_1_MINUTE, Slept 5,
                   Fetched ''TSLA'' INTERVAL_1_MINUTE, Slept 5])
   \<and> process_ticker rate_limited_env INTERVAL_1_MINUTE Ref_1min ''TSLA'' initial_state
       = Inr (initial_state\<lparr>world := [Fetched ''TSLA'' INTERVAL_1_MINUTE, Slept 5,
                                      Fetched ''TSLA'' INTERVAL_1_MINUTE, Slept 5,
                                      Fetched ''TSLA'' INTERVAL_1_MINUTE, Slept 5]\<rparr>)"
proof -
  have rl: "\<And>k. rate_limited (get_analysis rate_limited_env k ''TSLA'' INTERVAL_1_MINUTE)"
    by (simp add: rate_limited_env_def sublist_code prefix_code)
  have h1: "(0::rat) \<le> 5" by simp
  have h2: "\<forall>k<nat 3. rate_limited (get_analysis rate_limited_env (fetch_count [] + k) ''TSLA'' INTERVAL_1_MINUTE)"
    using rl by simp
  have h3: "\<forall>k<3. rate_limited (get_analysis rate_limited_env (fetch_count (world initial_state) + k) ''TSLA'' INTERVAL_1_MINUTE)"
    using rl by simp
  have w0: "world initial_state = []" by (simp add: initial_state_def)
  from rate_limited_fetch_skips_tick [OF h1 h2 h3, of Ref_1min "[]"] show ?thesis
    by (simp add: w0 numeral_3_eq_3)
qed

text \<open>
  C9. When a fetch attempt raises an error whose message does not contain 429,
  \<^verbatim>\<open>get_tradingview_price\<close> returns \<^verbatim>\<open>None\<close> right after that attempt: no sleep and no
  further attempt follow it, whatever number \<open>j\<close> of rate-limited attempts came before.
\<close>

theorem other_error_no_retry:
  assumes "0 \<le> delay"
    and "int j < retries"
    and "\<forall>k<j. rate_limited (get_analysis env (fetch_count w + k) ticker intv)"
    and "get_analysis env (fetch_count w + j) ticker intv = Raise err_msg"
    and "\<not> sublist ''429'' err_msg"
  shows "get_tradingview_price env ticker intv retries delay w
           = Inr (None, w @ concat (replicate j [Fetched ticker intv, Slept delay])
                          @ [Fetched ticker intv])"
  unfolding get_tradingview_price_def
  using fetch_loop_then_other_error [OF assms(1) _ assms(3) assms(4) assms(5), of 0 retries] assms(2)
  by simp

theorem other_error_no_retry_witness:
  "get_tradingview_price unavailable_env ''TSLA'' INTERVAL_1_MINUTE 3 5 []
     = Inr (None, [Fetched ''TSLA'' INTERVAL_1_MINUTE])
   \<and> get_tradingview_price limited_once_env ''TSLA'' INTERVAL_1_MINUTE 3 5 []
       = Inr (None, [Fetched ''TSLA'' INTERVAL_1_MINUTE, Slept 5,
                     Fetched ''TSLA'' INTERVAL_1_MINUTE])"
proof -
  have h1: "(0::rat) \<le> 5" by simp
  have h2: "int 0 < 3" by simp
  have h3: "\<forall>k<0. rate_limited
              (get_analysis unavailable_env (fetch_count [] + k) ''TSLA'' INTERVAL_1_MINUTE)"
    by simp
  have h4: "get_analysis unavailable_env (fetch_count [] + 0) ''TSLA'' INTERVAL_1_MINUTE
              = Raise ''Exchange or symbol not found.''"
    by (simp add: unavailable_env_def)
  have h5: "\<not> sublist ''429'' ''Exchange or symbol not found.''"
    by (simp add: sublist_code prefix_code)
  have g2: "int 1 < 3" by simp
  have g3: "\<forall>k<1. rate_limited
              (get_analysis limited_once_env (fetch_count [] + k) ''TSLA'' INTERVAL_1_MINUTE)"
    by (simp add: limited_once_env_def sublist_code prefix_code)
  have g4: "get_analysis limited_once_env (fetch_count [] + 1) ''TSLA'' INTERVAL_1_MINUTE
              = Raise ''Exchange or symbol not found.''"
    by (simp add: limited_once_env_def)
  from other_error_no_retry [OF h1 h2 h3 h4 h5] other_error_no_retry [OF h1 g2 g3 g4 h5]
  show ?thesis by simp
qed

section \<open>Properties of the per-ticker step\<close>

lemma logged_append [simp]: "logged (w @ v) = logged w @ logged v"
  by (induction w rule: logged.induct) simp_all

lemma clock_count_append [simp]: "clock_count (w @ v) = clock_count w + clock_count v"
  by (simp add: clock_count_def)

lemma clock_count_simps [simp]:
  "clock_count [] = 0"
  "clock_count (Fetched t i # w) = clock_count w"
  "clock_count (Slept d # w) = clock_count w"
  "clock_count (Logged r # w) = clock_count w"
  "clock_count (ClockRead # w) = Suc (clock_count w)"
  by (simp_all add: clock_count_def)

lemma fetch_loop_quiet:
  "fetch_loop env t i retries delay attempt w = Inr (r, w')
   \<Longrightarrow> logged w' = logged w \<and> clock_count w' = clock_count w"
proof (induction env t i retries delay attempt w rule: fetch_loop.induct)
  case (1 env ticker intv retries delay attempt w)
  show ?case
  proof (cases "attempt < retries")
    case False
    with "1.prems" show ?thesis by (auto simp: fetch_loop_exhausted)
  next
    case True
    show ?thesis
    proof (cases "get_analysis env (fetch_count w) ticker intv")
      case (Close p)
      with True "1.prems" show ?thesis by (auto simp: fetch_loop_close)
    next
      case (Raise m)
      show ?thesis
      proof (cases "sublist ''429'' m")
        case False
        with True Raise "1.prems" show ?thesis by (auto simp: fetch_loop_other_error)
      next
        case lim: True
        show ?thesis
        proof (cases "delay < 0")
          case True
          with \<open>attempt < retries\<close> Raise lim "1.prems" show ?thesis
            by (subst (asm) fetch_loop.simps) simp
        next
          case False
          with \<open>attempt < retries\<close> Raise lim "1.prems"
          have "fetch_loop env ticker intv retries delay (attempt + 1)
                  (w @ [Fetched ticker intv, Slept delay]) = Inr (r, w')"
            by (subst (asm) fetch_loop.simps) simp
          with "1.IH" [OF \<open>attempt < retries\<close> Raise lim False] show ?thesis by simp
        qed
      qed
    qed
  qed
qed

lemma get_tradingview_price_quiet:
  "get_tradingview_price env t i retries delay w = Inr (r, w')
   \<Longrightarrow> logged w' = logged w \<and> clock_count w' = clock_count w"
  unfolding get_tradingview_price_def by (rule fetch_loop_quiet)

lemma history_of_store [simp]: "history_of h (history_store h t d st) t = Some d"
  by (cases h) simp_all

lemma last_signal_store [simp]: "last_signal (history_store h t d st) = last_signal st"
  by (cases h) simp_all

lemma world_store [simp]: "world (history_store h t d st) = world st"
  by (cases h) simp_all

lemma history_of_world [simp]: "history_of h (st\<lparr>world := w\<rparr>) = history_of h st"
  by (cases h) simp_all

lemma history_of_last_signal [simp]: "history_of h (st\<lparr>last_signal := m\<rparr>) = history_of h st"
  by (cases h) simp_all

text \<open>
  C4. In the per-ticker step, after a successful fetch: when the computed signal equals
  the stored \<open>last_signal\<close> of the ticker, no row is written and \<open>last_signal\<close> is
  unchanged; when it differs, exactly one row with that signal is written and
  \<open>last_signal\<close> of the ticker becomes the new signal.
\<close>

theorem log_only_on_change:
  assumes "get_tradingview_price env ticker intv 3 5 (world st) = Inr (Some p, w1)"
    and "history_of h st ticker = Some dq"
    and "get_swing_signal dq p = (dq', sig, s, l)"
    and "last_signal st ticker = Some stored"
  shows "\<exists>st'. process_ticker env intv h ticker st = Inr st'
           \<and> history_of h st' ticker = Some dq'
           \<and> (if stored = Some sig
               then logged (world st') = logged (world st) \<and> last_signal st' = last_signal st
               else logged (world st')
                      = logged (world st)
                        @ [\<lparr>Timestamp = datetime_now env (clock_count (world st)), Ticker = ticker,
                             Price = p, Short_MA = s, Long_MA = l, Signal = sig\<rparr>]
                    \<and> last_signal st' = (last_signal st)(ticker \<mapsto> Some sig))"
proof -
  from get_tradingview_price_quiet [OF assms(1)]
  have q: "logged w1 = logged (world st)" "clock_count w1 = clock_count (world st)"
    by simp_all
  show ?thesis
  proof (cases "stored = Some sig")
    case True
    with assms q show ?thesis
      by (simp add: process_ticker_def)
  next
    case False
    with assms q show ?thesis
      by (simp add: process_ticker_def now_eastern_def log_signal_def)
  qed
qed

text \<open>
  C10. With \<open>last_signal\<close> of the ticker still \<^verbatim>\<open>None\<close> and fewer than \<open>LONG_MA - 1\<close>
  prices in the window, a successful fetch writes a row with signal HOLD and both
  averages 0, and sets \<open>last_signal\<close> of the ticker to HOLD.
\<close>

theorem first_observation_logs_hold:
  assumes "get_tradingview_price env ticker intv 3 5 (world st) = Inr (Some p, w1)"
    and "history_of h st ticker = Some dq"
    and "length (items dq) < LONG_MA - 1"
    and "last_signal st ticker = Some None"
  shows "\<exists>st'. process_ticker env intv h ticker st = Inr st'
           \<and> logged (world st')
               = logged (world st)
                 @ [\<lparr>Timestamp = datetime_now env (clock_count (world st)), Ticker = ticker,
                      Price = p, Short_MA = Finite 0, Long_MA = Finite 0, Signal = HOLD\<rparr>]
           \<and> last_signal st' ticker = Some (Some HOLD)"
proof -
  from get_tradingview_price_quiet [OF assms(1)]
  have q: "logged w1 = logged (world st)" "clock_count w1 = clock_count (world st)"
    by simp_all
  have "length (items (deque_append dq p)) < LONG_MA"
    using assms(3) by (auto simp: deque_append_items LONG_MA_def split: option.splits)
  then have g: "get_swing_signal dq p = (deque_append dq p, HOLD, Finite 0, Finite 0)"
    by (simp add: get_swing_signal_def Let_def)
  show ?thesis
    using assms(1,2,4) q g
    by (simp add: process_ticker_def now_eastern_def log_signal_def)
qed

lemma ascending_first_fetch:
  "world st = [] \<Longrightarrow>
   get_tradingview_price ascending_env ''TSLA'' INTERVAL_1_MINUTE 3 5 (world st)
     = Inr (Some 1, [Fetched ''TSLA'' INTERVAL_1_MINUTE])"
  by (simp add: get_tradingview_price_def fetch_loop_close ascending_env_def)

lemma first_price_insufficient:
  "get_swing_signal \<lparr>items = [], maxlen = Some 15\<rparr> 1
     = (\<lparr>items = [1], maxlen = Some 15\<rparr>, HOLD, Finite 0, Finite 0)"
  by (simp add: get_swing_signal_def deque_append_def LONG_MA_def)

theorem log_only_on_change_witness:
  "map_sum id (logged \<circ> world)
     (process_ticker ascending_env INTERVAL_1_MINUTE Ref_1min ''TSLA''
        (initial_state\<lparr>last_signal := (last_signal initial_state)(''TSLA'' \<mapsto> Some HOLD)\<rparr>))
     = Inr []
   \<and> map_sum id (logged \<circ> world)
       (process_ticker ascending_env INTERVAL_1_MINUTE Ref_1min ''TSLA'' initial_state)
       = Inr [\<lparr>Timestamp = noon, Ticker = ''TSLA'', Price = 1, Short_MA = Finite 0, Long_MA = Finite 0,
               Signal = HOLD\<rparr>]"
proof -
  let ?held = "initial_state\<lparr>last_signal := (last_signal initial_state)(''TSLA'' \<mapsto> Some HOLD)\<rparr>"
  let ?d = "\<lparr>items = [], maxlen = Some 15\<rparr>"
  have w0: "world initial_state = []" "world ?held = []"
    by (simp_all add: initial_state_def)
  have h2: "history_of Ref_1min initial_state ''TSLA'' = Some ?d"
           "history_of Ref_1min ?held ''TSLA'' = Some ?d"
    by (simp_all add: initial_state_def dict_of_keys_def TICKERS_def deque_new_def LONG_MA_def)
  have h4: "last_signal ?held ''TSLA'' = Some (Some HOLD)"
    by simp
  have h4': "last_signal initial_state ''TSLA'' = Some None"
    by (simp add: initial_state_def dict_of_keys_def TICKERS_def)
  have now: "datetime_now ascending_env 0 = noon"
    by (simp add: ascending_env_def)
  from log_only_on_change [OF ascending_first_fetch [OF w0(2)] h2(2) first_price_insufficient h4]
  have a: "map_sum id (logged \<circ> world)
             (process_ticker ascending_env INTERVAL_1_MINUTE Ref_1min ''TSLA'' ?held) = Inr []"
    by (auto simp: w0)
  from log_only_on_change [OF ascending_first_fetch [OF w0(1)] h2(1) first_price_insufficient h4']
  have b: "map_sum id (logged \<circ> world)
             (process_ticker ascending_env INTERVAL_1_MINUTE Ref_1min ''TSLA'' initial_state)
             = Inr [\<lparr>Timestamp = noon, Ticker = ''TSLA'', Price = 1, Short_MA = Finite 0, Long_MA = Finite 0,
                     Signal = HOLD\<rparr>]"
    by (auto simp: w0 now)
  from a b show ?thesis by simp
qed

theorem first_observation_logs_hold_witness:
  "map_sum id (logged \<circ> world)
     (process_ticker ascending_env INTERVAL_15_MINUTES Ref_15min ''NVDA'' initial_state)
     = Inr [\<lparr>Timestamp = noon, Ticker = ''NVDA'', Price = 1, Short_MA = Finite 0, Long_MA = Finite 0,
             Signal = HOLD\<rparr>]
   \<and> map_sum id (\<lambda>st. last_signal st ''NVDA'')
       (process_ticker ascending_env INTERVAL_15_MINUTES Ref_15min ''NVDA'' initial_state)
       = Inr (Some (Some HOLD))"
proof -
  have w0: "world initial_state = []"
    by (simp add: initial_state_def)
  have h1: "get_tradingview_price ascending_env ''NVDA'' INTERVAL_15_MINUTES 3 5 (world initial_state)
              = Inr (Some 1, [Fetched ''NVDA'' INTERVAL_15_MINUTES])"
    by (simp add: w0 get_tradingview_price_def fetch_loop_close ascending_env_def)
  have h2: "history_of Ref_15min initial_state ''NVDA'' = Some \<lparr>items = [], maxlen = Some 15\<rparr>"
    by (simp add: initial_state_def dict_of_keys_def TICKERS_def deque_new_def LONG_MA_def)
  have h3: "length (items \<lparr>items = [], maxlen = Some 15\<rparr>) < LONG_MA - 1"
    by (simp add: LONG_MA_def)
  have h4: "last_signal initial_state ''NVDA'' = Some None"
    by (simp add: initial_state_def dict_of_keys_def TICKERS_def)
  have now: "datetime_now ascending_env 0 = noon"
    by (simp add: ascending_env_def)
  from first_observation_logs_hold [OF h1 h2 h3 h4] show ?thesis
    by (auto simp: w0 now)
qed

lemma ascending_run:
  "for_tickers ascending_env INTERVAL_1_MINUTE Ref_1min (replicate 15 ''TSLA'') initial_state
     = Inr (initial_state
         \<lparr>price_history_1min := (price_history_1min initial_state)
            (''TSLA'' \<mapsto> \<lparr>items = [1, 2, 3, 4, 5, 6, 7, 8, 9, 10, 11, 12, 13, 14, 15],
                              maxlen = Some 15\<rparr>),
          last_signal := (last_signal initial_state)(''TSLA'' \<mapsto> Some BUY),
          world :=
            [Fetched ''TSLA'' INTERVAL_1_MINUTE, ClockRead,
             Logged \<lparr>Timestamp = noon, Ticker = ''TSLA'', Price = 1, Short_MA = Finite 0, Long_MA = Finite 0,
                     Signal = HOLD\<rparr>,
             Slept 1]
            @ concat (replicate 13 [Fetched ''TSLA'' INTERVAL_1_MINUTE, Slept 1])
            @ [Fetched ''TSLA'' INTERVAL_1_MINUTE, ClockRead,
               Logged \<lparr>Timestamp = noon, Ticker = ''TSLA'', Price = 15, Short_MA = Finite 13, Long_MA = Finite 8,
                       Signal = BUY\<rparr>,
               Slept 1]\<rparr>)"
  by (simp add: replicate_15 process_ticker_def get_tradingview_price_def fetch_loop_close
        ascending_env_def fetch_count_def initial_state_def dict_of_keys_def TICKERS_def
        deque_new_def LONG_MA_def get_swing_signal_def deque_append_def now_eastern_def
        log_signal_def clock_count_def SHORT_MA_def slice_last_def replicate_13
        favg_11_to_15 favg_1_to_15)

text \<open>
  C2, as the program behaves. Feeding the prices 1 to 15 into a fresh window gives
  (HOLD, 0, 0) for the first 14 observations and (BUY, 13, 8) for the 15th (the float
  sums of these integers are exact). Run through
  the per-ticker step from the initial state, the window ends as 1 to 15,
  \<open>last_signal\<close> as BUY, and the log holds exactly two rows: the HOLD row of the first
  observation (the stored signal was \<^verbatim>\<open>None\<close>) and the BUY row of the 15th.
\<close>

theorem ascending_run_two_records:
  "observe_all (deque_new (Some LONG_MA)) [1, 2, 3, 4, 5, 6, 7, 8, 9, 10, 11, 12, 13, 14, 15]
     = replicate 14 (HOLD, Finite 0, Finite 0) @ [(BUY, Finite 13, Finite 8)]
   \<and> (\<exists>st. for_tickers ascending_env INTERVAL_1_MINUTE Ref_1min (replicate 15 ''TSLA'') initial_state
              = Inr st
          \<and> price_history_1min st ''TSLA''
              = Some \<lparr>items = [1, 2, 3, 4, 5, 6, 7, 8, 9, 10, 11, 12, 13, 14, 15], maxlen = Some 15\<rparr>
          \<and> last_signal st ''TSLA'' = Some (Some BUY)
          \<and> logged (world st)
              = [\<lparr>Timestamp = noon, Ticker = ''TSLA'', Price = 1, Short_MA = Finite 0, Long_MA = Finite 0,
                   Signal = HOLD\<rparr>,
                 \<lparr>Timestamp = noon, Ticker = ''TSLA'', Price = 15, Short_MA = Finite 13, Long_MA = Finite 8,
                   Signal = BUY\<rparr>])"
proof -
  have obs: "observe_all (deque_new (Some LONG_MA)) [1, 2, 3, 4, 5, 6, 7, 8, 9, 10, 11, 12, 13, 14, 15]
               = replicate 14 (HOLD, Finite 0, Finite 0) @ [(BUY, Finite 13, Finite 8)]"
    by (simp add: deque_new_def LONG_MA_def get_swing_signal_def deque_append_def SHORT_MA_def
          slice_last_def replicate_14 favg_11_to_15 favg_1_to_15)
  have quiet: "logged (concat (replicate n [Fetched t i, Slept d])) = []" for n t i d
    by (induction n) simp_all
  show ?thesis
    unfolding ascending_run using obs by (simp add: quiet)
qed

text \<open>
  C2, as stated, asks for exactly one row over that run; the run writes two.
\<close>

theorem ascending_run_single_record_counterexample:
  "map_sum id (length \<circ> logged \<circ> world)
     (for_tickers ascending_env INTERVAL_1_MINUTE Ref_1min (replicate 15 ''TSLA'') initial_state)
     \<noteq> Inr 1"
proof -
  have quiet: "logged (concat (replicate n [Fetched t i, Slept d])) = []" for n t i d
    by (induction n) simp_all
  show ?thesis
    unfolding ascending_run by (simp add: quiet)
qed

section \<open>Properties of preloading\<close>

lemma append_times_fill:
  "k + n \<le> m \<Longrightarrow>
   append_times n \<lparr>items = replicate k p, maxlen = Some m\<rparr> p
     = \<lparr>items = replicate (k + n) p, maxlen = Some m\<rparr>"
proof (induction n arbitrary: k)
  case 0
  then show ?case by simp
next
  case (Suc n)
  from Suc.prems have "Suc k + n \<le> m" by simp
  from Suc.IH [OF this] Suc.prems show ?case
    by (simp add: deque_append_def replicate_append_same)
qed

lemma preload_fetch_count:
  "fetch_count (snd (preload_price_history env t d i w)) = Suc (fetch_count w)"
  by (simp add: preload_price_history_def split: fetch_result.splits)

lemma preload_all_returns:
  "set ts \<subseteq> dom (price_history_1min st) \<Longrightarrow> set ts \<subseteq> dom (price_history_15min st)
   \<Longrightarrow> \<exists>st'. preload_all env ts st = Inr st'
            \<and> fetch_count (world st') = fetch_count (world st) + 2 * length ts
            \<and> last_signal st' = last_signal st"
proof (induction ts arbitrary: st)
  case Nil
  then show ?case by simp
next
  case (Cons t ts)
  from Cons.prems obtain d1 d15 where
    d1: "price_history_1min st t = Some d1" and d15: "price_history_15min st t = Some d15"
    by auto
  obtain d1' w1 where p1: "preload_price_history env t d1 INTERVAL_1_MINUTE (world st) = (d1', w1)"
    by (cases "preload_price_history env t d1 INTERVAL_1_MINUTE (world st)")
  let ?st1 = "st\<lparr>price_history_1min := (price_history_1min st)(t \<mapsto> d1'),
                  world := w1 @ [Slept (3 / 2)]\<rparr>"
  obtain d15' w2 where p2: "preload_price_history env t d15 INTERVAL_15_MINUTES (world ?st1) = (d15', w2)"
    by (cases "preload_price_history env t d15 INTERVAL_15_MINUTES (world ?st1)")
  let ?st2 = "?st1\<lparr>price_history_15min := (price_history_15min ?st1)(t \<mapsto> d15'),
                    world := w2 @ [Slept (3 / 2)]\<rparr>"
  have c1: "fetch_count w1 = Suc (fetch_count (world st))"
    using preload_fetch_count [of env t d1 INTERVAL_1_MINUTE "world st"] p1 by simp
  have c2: "fetch_count w2 = Suc (fetch_count (world ?st1))"
    using preload_fetch_count [of env t d15 INTERVAL_15_MINUTES "world ?st1"] p2 by simp
  have step: "preload_all env (t # ts) st = preload_all env ts ?st2"
    using d1 d15 p1 p2 by simp
  have dom1: "set ts \<subseteq> dom (price_history_1min ?st2)" and dom15: "set ts \<subseteq> dom (price_history_15min ?st2)"
    using Cons.prems by auto
  from Cons.IH [OF dom1 dom15] obtain st' where
    "preload_all env ts ?st2 = Inr st'"
    "fetch_count (world st') = fetch_count (world ?st2) + 2 * length ts"
    "last_signal st' = last_signal ?st2"
    by blast
  with step c1 c2 show ?case by simp
qed

lemma preload_empty_window:
  "preload_price_history env t (deque_new (Some LONG_MA)) i w
     = (preloaded (get_analysis env (fetch_count w) t i), w @ [Fetched t i])"
  using append_times_fill [of 0 LONG_MA LONG_MA]
  by (simp add: preload_price_history_def deque_new_def split: fetch_result.splits)

lemma preload_all_initial:
  "preload_all env TICKERS initial_state
     = Inr \<lparr>price_history_1min =
               [''TSLA'' \<mapsto> preloaded (get_analysis env 0 ''TSLA'' INTERVAL_1_MINUTE),
                ''MSFT'' \<mapsto> preloaded (get_analysis env 2 ''MSFT'' INTERVAL_1_MINUTE),
                ''NVDA'' \<mapsto> preloaded (get_analysis env 4 ''NVDA'' INTERVAL_1_MINUTE),
                ''PLTR'' \<mapsto> preloaded (get_analysis env 6 ''PLTR'' INTERVAL_1_MINUTE)],
            price_history_15min =
               [''TSLA'' \<mapsto> preloaded (get_analysis env 1 ''TSLA'' INTERVAL_15_MINUTES),
                ''MSFT'' \<mapsto> preloaded (get_analysis env 3 ''MSFT'' INTERVAL_15_MINUTES),
                ''NVDA'' \<mapsto> preloaded (get_analysis env 5 ''NVDA'' INTERVAL_15_MINUTES),
                ''PLTR'' \<mapsto> preloaded (get_analysis env 7 ''PLTR'' INTERVAL_15_MINUTES)],
            last_signal = last_signal initial_state,
            world =
               [Fetched ''TSLA'' INTERVAL_1_MINUTE, Slept (3 / 2),
                Fetched ''TSLA'' INTERVAL_15_MINUTES, Slept (3 / 2),
                Fetched ''MSFT'' INTERVAL_1_MINUTE, Slept (3 / 2),
                Fetched ''MSFT'' INTERVAL_15_MINUTES, Slept (3 / 2),
                Fetched ''NVDA'' INTERVAL_1_MINUTE, Slept (3 / 2),
                Fetched ''NVDA'' INTERVAL_15_MINUTES, Slept (3 / 2),
                Fetched ''PLTR'' INTERVAL_1_MINUTE, Slept (3 / 2),
                Fetched ''PLTR'' INTERVAL_15_MINUTES, Slept (3 / 2)]\<rparr>"
  by (simp add: TICKERS_def initial_state_def dict_of_keys_def preload_empty_window
        eval_nat_numeral)

text \<open>
  C8. \<^verbatim>\<open>preload_price_history\<close> makes exactly one quote request. When the request
  succeeds, an empty window of capacity \<open>LONG_MA\<close> afterwards holds \<open>LONG_MA\<close> copies of
  the fetched price; when it fails, with a rate-limit error or any other, the window is
  returned as it was. The function has no raising path, and the preload loop of
  \<^verbatim>\<open>main\<close> returns for every quote source: it makes one request per ticker and
  resolution, in the order of \<open>TICKERS\<close>, and afterwards each of the eight windows is
  full of the price its own request fetched, or still empty where that request failed;
  \<open>last_signal\<close> is untouched.
\<close>

theorem preload_single_fetch:
  "fetch_count (snd (preload_price_history env ticker d intv w)) = Suc (fetch_count w)
   \<and> (case get_analysis env (fetch_count w) ticker intv of
         Close p \<Rightarrow>
           preload_price_history env ticker (deque_new (Some LONG_MA)) intv w
             = (\<lparr>items = replicate LONG_MA p, maxlen = Some LONG_MA\<rparr>, w @ [Fetched ticker intv])
       | Raise err_msg \<Rightarrow>
           preload_price_history env ticker d intv w = (d, w @ [Fetched ticker intv]))
   \<and> preload_all env TICKERS initial_state
       = Inr \<lparr>price_history_1min =
                 [''TSLA'' \<mapsto> preloaded (get_analysis env 0 ''TSLA'' INTERVAL_1_MINUTE),
                  ''MSFT'' \<mapsto> preloaded (get_analysis env 2 ''MSFT'' INTERVAL_1_MINUTE),
                  ''NVDA'' \<mapsto> preloaded (get_analysis env 4 ''NVDA'' INTERVAL_1_MINUTE),
                  ''PLTR'' \<mapsto> preloaded (get_analysis env 6 ''PLTR'' INTERVAL_1_MINUTE)],
              price_history_15min =
                 [''TSLA'' \<mapsto> preloaded (get_analysis env 1 ''TSLA'' INTERVAL_15_MINUTES),
                  ''MSFT'' \<mapsto> preloaded (get_analysis env 3 ''MSFT'' INTERVAL_15_MINUTES),
                  ''NVDA'' \<mapsto> preloaded (get_analysis env 5 ''NVDA'' INTERVAL_15_MINUTES),
                  ''PLTR'' \<mapsto> preloaded (get_analysis env 7 ''PLTR'' INTERVAL_15_MINUTES)],
              last_signal = last_signal initial_state,
              world =
                 [Fetched ''TSLA'' INTERVAL_1_MINUTE, Slept (3 / 2),
                  Fetched ''TSLA'' INTERVAL_15_MINUTES, Slept (3 / 2),
                  Fetched ''MSFT'' INTERVAL_1_MINUTE, Slept (3 / 2),
                  Fetched ''MSFT'' INTERVAL_15_MINUTES, Slept (3 / 2),
                  Fetched ''NVDA'' INTERVAL_1_MINUTE, Slept (3 / 2),
                  Fetched ''NVDA'' INTERVAL_15_MINUTES, Slept (3 / 2),
                  Fetched ''PLTR'' INTERVAL_1_MINUTE, Slept (3 / 2),
                  Fetched ''PLTR'' INTERVAL_15_MINUTES, Slept (3 / 2)]\<rparr>"
proof -
  have fill: "append_times LONG_MA (deque_new (Some LONG_MA)) p
                = \<lparr>items = replicate LONG_MA p, maxlen = Some LONG_MA\<rparr>" for p
    using append_times_fill [of 0 LONG_MA LONG_MA p] by (simp add: deque_new_def)
  have b: "case get_analysis env (fetch_count w) ticker intv of
         Close p \<Rightarrow>
           preload_price_history env ticker (deque_new (Some LONG_MA)) intv w
             = (\<lparr>items = replicate LONG_MA p, maxlen = Some LONG_MA\<rparr>, w @ [Fetched ticker intv])
       | Raise err_msg \<Rightarrow>
           preload_price_history env ticker d intv w = (d, w @ [Fetched ticker intv])"
    by (simp add: preload_price_history_def fill split: fetch_result.splits)
  from preload_fetch_count b preload_all_initial show ?thesis by blast
qed

text \<open>
  With every request answered, every window is full after the preload loop; with every
  request refused, every window is still empty.
\<close>

lemma preload_all_example_success:
  "map_sum id (\<lambda>st. (price_history_1min st ''TSLA'', price_history_15min st ''PLTR''))
     (preload_all ascending_env TICKERS initial_state)
     = Inr (Some \<lparr>items = replicate LONG_MA 1, maxlen = Some LONG_MA\<rparr>,
            Some \<lparr>items = replicate LONG_MA 8, maxlen = Some LONG_MA\<rparr>)"
  by (simp add: preload_all_initial ascending_env_def)

lemma preload_all_example_failure:
  "map_sum id (\<lambda>st. (price_history_1min st ''TSLA'', price_history_15min st ''PLTR''))
     (preload_all rate_limited_env TICKERS initial_state)
     = Inr (Some (deque_new (Some LONG_MA)), Some (deque_new (Some LONG_MA)))"
  by (simp add: preload_all_initial rate_limited_env_def)

lemma preload_example_success:
  "preload_price_history ascending_env ''TSLA'' (deque_new (Some LONG_MA)) INTERVAL_1_MINUTE []
     = (\<lparr>items = replicate 15 1, maxlen = Some 15\<rparr>, [Fetched ''TSLA'' INTERVAL_1_MINUTE])"
  using append_times_fill [of 0 15 15 1]
  by (simp add: preload_price_history_def ascending_env_def deque_new_def LONG_MA_def)

lemma preload_example_failure:
  "preload_price_history rate_limited_env ''TSLA'' (deque_new (Some LONG_MA)) INTERVAL_1_MINUTE []
     = (deque_new (Some LONG_MA), [Fetched ''TSLA'' INTERVAL_1_MINUTE])"
  by (simp add: preload_price_history_def rate_limited_env_def)

section \<open>Properties of the schedule\<close>

lemma next_minute_bounds:
  fixes m :: nat
  assumes "m < 60"
  shows "m < (m div 10 + 1) * 10" and "(m div 10 + 1) * 10 \<le> 60"
    and "(m div 10 + 1) * 10 mod 10 = 0" and "(m div 10 + 1) * 10 \<ge> 60 \<longleftrightarrow> 50 \<le> m"
  using assms by presburger+

lemma get_next_10min_run_same_hour:
  assumes "valid_datetime now" and "minute now < 50"
  shows "get_next_10min_run now
           = Inr (now\<lparr>minute := (minute now div 10 + 1) * 10, second := 0, microsecond := 0\<rparr>)"
proof -
  from assms have m: "minute now < 60" and h: "hour now < 24"
    by (simp_all add: valid_datetime_def)
  from assms(2) have lt60: "\<not> 60 \<le> (minute now div 10 + 1) * 10" and lt: "(minute now div 10 + 1) * 10 < 60"
    using next_minute_bounds(4) [OF m] by simp_all
  have gt: "minute now < (minute now div 10 + 1) * 10"
    by (rule next_minute_bounds(1) [OF m])
  have neq: "now\<lparr>minute := (minute now div 10 + 1) * 10, second := 0, microsecond := 0\<rparr> \<noteq> now"
  proof
    assume "now\<lparr>minute := (minute now div 10 + 1) * 10, second := 0, microsecond := 0\<rparr> = now"
    then have "minute (now\<lparr>minute := (minute now div 10 + 1) * 10, second := 0, microsecond := 0\<rparr>) = minute now"
      by simp
    with gt show False by simp
  qed
  show ?thesis
    using h lt lt60 gt neq
    by (simp add: get_next_10min_run_def Let_def replace_time_def dt_le_def dt_less_def)
qed

lemma get_next_10min_run_next_hour:
  assumes "valid_datetime now" and "50 \<le> minute now" and "hour now < 23"
  shows "get_next_10min_run now
           = Inr (now\<lparr>hour := hour now + 1, minute := 0, second := 0, microsecond := 0\<rparr>)"
proof -
  from assms have m: "minute now < 60"
    by (simp add: valid_datetime_def)
  from assms(2) m have nm: "(minute now div 10 + 1) * 10 = 60"
    by presburger
  have neq: "now\<lparr>hour := hour now + 1, minute := 0, second := 0, microsecond := 0\<rparr> \<noteq> now"
  proof
    assume "now\<lparr>hour := hour now + 1, minute := 0, second := 0, microsecond := 0\<rparr> = now"
    then have "hour (now\<lparr>hour := hour now + 1, minute := 0, second := 0, microsecond := 0\<rparr>) = hour now"
      by simp
    then show False by simp
  qed
  show ?thesis
    using assms(3) nm neq
    by (simp add: get_next_10min_run_def Let_def replace_time_def dt_le_def dt_less_def)
qed

lemma get_next_10min_run_midnight:
  assumes "valid_datetime now" and "50 \<le> minute now" and "hour now = 23"
  shows "get_next_10min_run now
           = Inr (now\<lparr>hour := 0, minute := 10, second := 0, microsecond := 0\<rparr>)"
proof -
  from assms have m: "minute now < 60" and o: "0 < ordinal now" "ordinal now \<le> MAXORDINAL"
    by (simp_all add: valid_datetime_def)
  from assms(2) m have nm: "(minute now div 10 + 1) * 10 = 60"
    by presburger
  show ?thesis
    using assms(3) nm o
    by (simp add: get_next_10min_run_def Let_def replace_time_def dt_le_def dt_less_def
          add_minutes_def)
qed

text \<open>
  For every valid instant the result is on the 10-minute grid; it is strictly later than
  the instant unless the instant is in the last ten minutes of the day.
\<close>

lemma get_next_10min_run_aligned:
  assumes "valid_datetime now"
  shows "\<exists>r. get_next_10min_run now = Inr r \<and> on_10min_grid r \<and> valid_datetime r"
proof -
  from assms have m: "minute now < 60" by (simp add: valid_datetime_def)
  from assms have "hour now < 24" by (simp add: valid_datetime_def)
  then consider "minute now < 50" | "50 \<le> minute now" "hour now < 23"
    | "50 \<le> minute now" "hour now = 23"
    by linarith
  then show ?thesis
  proof cases
    case 1
    from m 1 have "(minute now div 10 + 1) * 10 < 60" by presburger
    with get_next_10min_run_same_hour [OF assms 1] assms show ?thesis
      by (simp add: on_10min_grid_def valid_datetime_def)
  next
    case 2
    with get_next_10min_run_next_hour [OF assms 2] assms show ?thesis
      by (simp add: on_10min_grid_def valid_datetime_def)
  next
    case 3
    with get_next_10min_run_midnight [OF assms 3] assms show ?thesis
      by (simp add: on_10min_grid_def valid_datetime_def)
  qed
qed

lemma get_next_10min_run_later:
  assumes "valid_datetime now" and "hour now < 23 \<or> minute now < 50"
  shows "\<exists>r. get_next_10min_run now = Inr r \<and> on_10min_grid r \<and> dt_less now r"
proof (cases "minute now < 50")
  case True
  from assms(1) have m: "minute now < 60" by (simp add: valid_datetime_def)
  from next_minute_bounds(1) [OF m] get_next_10min_run_same_hour [OF assms(1) True]
  show ?thesis
    by (simp add: on_10min_grid_def dt_less_def)
next
  case False
  with assms(2) have "50 \<le> minute now" "hour now < 23" by simp_all
  from get_next_10min_run_next_hour [OF assms(1) this] show ?thesis
    by (simp add: on_10min_grid_def dt_less_def)
qed

lemma get_next_10min_run_examples:
  "get_next_10min_run \<lparr>ordinal = 739000, hour = 14, minute = 7, second = 0, microsecond = 0\<rparr>
     = Inr \<lparr>ordinal = 739000, hour = 14, minute = 10, second = 0, microsecond = 0\<rparr>"
  "get_next_10min_run \<lparr>ordinal = 739000, hour = 14, minute = 10, second = 0, microsecond = 0\<rparr>
     = Inr \<lparr>ordinal = 739000, hour = 14, minute = 20, second = 0, microsecond = 0\<rparr>"
  by (simp_all add: get_next_10min_run_def replace_time_def dt_le_def dt_less_def)

lemma get_next_10min_run_value:
  assumes "valid_datetime now" and "hour now < 23 \<or> minute now < 50"
  shows "get_next_10min_run now
           = Inr (if minute now < 50
                  then now\<lparr>minute := (minute now div 10 + 1) * 10, second := 0, microsecond := 0\<rparr>
                  else now\<lparr>hour := hour now + 1, minute := 0, second := 0, microsecond := 0\<rparr>)"
proof (cases "minute now < 50")
  case True
  with get_next_10min_run_same_hour [OF assms(1) True] show ?thesis by simp
next
  case False
  with assms(2) have "50 \<le> minute now" "hour now < 23" by simp_all
  from get_next_10min_run_next_hour [OF assms(1) this] False show ?thesis by simp
qed

lemma seconds_to_boundary:
  fixes k m s us :: int
  assumes "m < k" "k \<le> m + 10" "0 \<le> s" "s < 60" "0 \<le> us" "us < 1000000"
  shows "0 < (k - m) * 60000000 - s * 1000000 - us"
    and "(k - m) * 60000000 - s * 1000000 - us \<le> 600000000"
proof -
  define d where "d = k - m"
  from assms have d: "1 \<le> d" "d \<le> 10" by (simp_all add: d_def)
  then have "60000000 \<le> d * 60000000" "d * 60000000 \<le> 600000000"
    by simp_all
  moreover from assms have "s * 1000000 \<le> 59000000" "0 \<le> s * 1000000"
    by simp_all
  ultimately show "0 < (k - m) * 60000000 - s * 1000000 - us"
    and "(k - m) * 60000000 - s * 1000000 - us \<le> 600000000"
    using assms(5,6) unfolding d_def by linarith+
qed

text \<open>
  C3, as the program behaves. For every valid instant before 23:50 of its day the result
  of \<^verbatim>\<open>get_next_10min_run\<close> is on the 10-minute grid, strictly after \<open>now\<close> and at most
  ten minutes after it; 14:07 is mapped to 14:10 and 14:10:00 to 14:20.
\<close>

theorem get_next_10min_run_next_boundary:
  assumes "valid_datetime now" and "hour now < 23 \<or> minute now < 50"
  shows "(\<exists>r. get_next_10min_run now = Inr r \<and> on_10min_grid r \<and> dt_less now r
              \<and> 0 < total_seconds r now \<and> total_seconds r now \<le> 600)
         \<and> get_next_10min_run \<lparr>ordinal = 739000, hour = 14, minute = 7, second = 0, microsecond = 0\<rparr>
             = Inr \<lparr>ordinal = 739000, hour = 14, minute = 10, second = 0, microsecond = 0\<rparr>
         \<and> get_next_10min_run \<lparr>ordinal = 739000, hour = 14, minute = 10, second = 0, microsecond = 0\<rparr>
             = Inr \<lparr>ordinal = 739000, hour = 14, minute = 20, second = 0, microsecond = 0\<rparr>"
proof -
  from assms(1) have v: "minute now < 60" "second now < 60" "microsecond now < 1000000"
    by (simp_all add: valid_datetime_def)
  from get_next_10min_run_later [OF assms] obtain r where
    r: "get_next_10min_run now = Inr r" "on_10min_grid r" "dt_less now r"
    by blast
  have d: "0 < to_microseconds r - to_microseconds now
           \<and> to_microseconds r - to_microseconds now \<le> 600000000"
  proof (cases "minute now < 50")
    case True
    with get_next_10min_run_value [OF assms] r(1)
    have rv: "r = now\<lparr>minute := (minute now div 10 + 1) * 10, second := 0, microsecond := 0\<rparr>"
      by simp
    define k where "k = int ((minute now div 10 + 1) * 10)"
    have k: "int (minute now) < k" "k \<le> int (minute now) + 10"
      unfolding k_def by presburger+
    have "to_microseconds r - to_microseconds now
            = (k - int (minute now)) * 60000000
              - int (second now) * 1000000 - int (microsecond now)"
      unfolding rv k_def by (simp add: to_microseconds_def algebra_simps)
    with seconds_to_boundary [OF k, of "int (second now)" "int (microsecond now)"] v
    show ?thesis by simp
  next
    case False
    with get_next_10min_run_value [OF assms] r(1)
    have rv: "r = now\<lparr>hour := hour now + 1, minute := 0, second := 0, microsecond := 0\<rparr>"
      by simp
    from False v have k: "int (minute now) < 60" "60 \<le> int (minute now) + 10"
      by simp_all
    have "to_microseconds r - to_microseconds now
            = (60 - int (minute now)) * 60000000
              - int (second now) * 1000000 - int (microsecond now)"
      unfolding rv by (simp add: to_microseconds_def algebra_simps)
    with seconds_to_boundary [OF k, of "int (second now)" "int (microsecond now)"] v
    show ?thesis by simp
  qed
  then have "0 < total_seconds r now \<and> total_seconds r now \<le> 600"
    by (simp add: total_seconds_def)
  with r get_next_10min_run_examples show ?thesis by blast
qed

theorem get_next_10min_run_next_boundary_witness:
  "valid_datetime \<lparr>ordinal = 739000, hour = 14, minute = 7, second = 30, microsecond = 5\<rparr>
   \<and> get_next_10min_run \<lparr>ordinal = 739000, hour = 14, minute = 7, second = 30, microsecond = 5\<rparr>
       = Inr \<lparr>ordinal = 739000, hour = 14, minute = 10, second = 0, microsecond = 0\<rparr>
   \<and> dt_less \<lparr>ordinal = 739000, hour = 14, minute = 7, second = 30, microsecond = 5\<rparr>
              \<lparr>ordinal = 739000, hour = 14, minute = 10, second = 0, microsecond = 0\<rparr>"
proof -
  let ?now = "\<lparr>ordinal = 739000, hour = 14, minute = 7, second = 30, microsecond = 5\<rparr>"
  have h1: "valid_datetime ?now"
    by (simp add: valid_datetime_def MAXORDINAL_def)
  have h2: "hour ?now < 23 \<or> minute ?now < 50"
    by simp
  have e: "get_next_10min_run ?now
             = Inr \<lparr>ordinal = 739000, hour = 14, minute = 10, second = 0, microsecond = 0\<rparr>"
    by (simp add: get_next_10min_run_def replace_time_def dt_le_def dt_less_def)
  from get_next_10min_run_next_boundary [OF h1 h2] show ?thesis
    using h1 e by auto
qed

text \<open>
  Every instant at which \<^verbatim>\<open>main\<close> calls \<^verbatim>\<open>get_next_10min_run\<close> lies between
  \<open>market_open\<close> and \<open>market_close\<close> of the start-up day, hence before 23:50.
\<close>

lemma in_session_hour:
  assumes "session_times start = Inr (market_open, market_close, high_freq_end)"
    and "dt_le market_open now" and "dt_le now market_close"
  shows "hour now \<le> 16"
proof -
  from assms(1) have mo: "market_open = start\<lparr>hour := 9, minute := 30, second := 0, microsecond := 0\<rparr>"
    and mc: "market_close = start\<lparr>hour := 16, minute := 0, second := 0, microsecond := 0\<rparr>"
    by (auto simp: session_times_def replace_time_def split: sum.splits)
  from assms(2) have "ordinal start \<le> ordinal now"
    unfolding mo by (auto simp: dt_le_def dt_less_def split: if_splits)
  with assms(3) show ?thesis
    unfolding mc by (auto simp: dt_le_def dt_less_def split: if_splits)
qed

lemma get_next_10min_run_in_session:
  assumes "session_times start = Inr (market_open, market_close, high_freq_end)"
    and "valid_datetime now" and "dt_le market_open now" and "dt_le now market_close"
  shows "\<exists>r. get_next_10min_run now = Inr r \<and> on_10min_grid r \<and> dt_less now r"
proof -
  from in_session_hour [OF assms(1,3,4)] have "hour now < 23 \<or> minute now < 50" by simp
  from get_next_10min_run_later [OF assms(2) this] show ?thesis .
qed

text \<open>
  C3, as stated, asks for a result strictly after \<open>now\<close> at every instant. In the last ten
  minutes of a day the hour wraps to 0 while the date stays: at 23:55 the function
  returns 00:10 of the same day, which is before its input.
\<close>

theorem get_next_10min_run_before_midnight:
  "get_next_10min_run \<lparr>ordinal = 739000, hour = 23, minute = 55, second = 0, microsecond = 0\<rparr>
     = Inr \<lparr>ordinal = 739000, hour = 0, minute = 10, second = 0, microsecond = 0\<rparr>
   \<and> dt_less \<lparr>ordinal = 739000, hour = 0, minute = 10, second = 0, microsecond = 0\<rparr>
              \<lparr>ordinal = 739000, hour = 23, minute = 55, second = 0, microsecond = 0\<rparr>
   \<and> valid_datetime \<lparr>ordinal = 739000, hour = 23, minute = 55, second = 0, microsecond = 0\<rparr>"
  by (simp add: get_next_10min_run_def replace_time_def dt_le_def dt_less_def add_minutes_def
        MAXORDINAL_def valid_datetime_def)

lemma dt_less_irrefl [simp]: "\<not> dt_less a a"
  by (simp add: dt_less_def)

text \<open>
  While \<open>now\<close> is before \<open>high_freq_end\<close> (and within the session) the pass polls at
  1-minute resolution into the 1-minute windows and sleeps \<open>HIGH_FREQ_INTERVAL\<close> seconds.
\<close>

lemma before_boundary_is_high_frequency:
  assumes "datetime_now env (clock_count (world st)) = now"
    and "dt_le market_open now"
    and "dt_le now market_close"
    and "dt_less now high_freq_end"
  shows "main_iteration env market_open market_close high_freq_end st
           = (case for_tickers env INTERVAL_1_MINUTE Ref_1min TICKERS
                     (st\<lparr>world := world st @ [ClockRead]\<rparr>) of
                Inl e \<Rightarrow> Inl e
              | Inr st2 \<Rightarrow> Inr (Continue (st2\<lparr>world := world st2 @ [Slept 60]\<rparr>)))"
  using assms
  by (simp add: main_iteration_def now_eastern_def HIGH_FREQ_INTERVAL_def cong: sum.case_cong)

text \<open>
  C7. When the clock reads exactly \<open>high_freq_end\<close>, within the session, the pass takes
  the low-frequency branch: it polls at 15-minute resolution into the 15-minute windows
  and then sleeps until the next 10-minute boundary, as measured at a second reading
  of the clock, but at least 5 seconds.
\<close>

theorem boundary_is_low_frequency:
  assumes "datetime_now env (clock_count (world st)) = high_freq_end"
    and "valid_datetime high_freq_end"
    and "dt_le market_open high_freq_end"
    and "dt_le high_freq_end market_close"
  shows "\<exists>next_run. get_next_10min_run high_freq_end = Inr next_run
           \<and> main_iteration env market_open market_close high_freq_end st
               = (case for_tickers env INTERVAL_15_MINUTES Ref_15min TICKERS
                         (st\<lparr>world := world st @ [ClockRead, ClockRead]\<rparr>) of
                    Inl e \<Rightarrow> Inl e
                  | Inr st2 \<Rightarrow>
                      Inr (Continue
                        (st2\<lparr>world := world st2
                              @ [Slept (max 5 (total_seconds next_run
                                                 (datetime_now env (Suc (clock_count (world st))))))]\<rparr>)))"
proof -
  from get_next_10min_run_aligned [OF assms(2)] obtain next_run where
    nr: "get_next_10min_run high_freq_end = Inr next_run"
    by blast
  have "main_iteration env market_open market_close high_freq_end st
          = (case for_tickers env INTERVAL_15_MINUTES Ref_15min TICKERS
                    (st\<lparr>world := world st @ [ClockRead, ClockRead]\<rparr>) of
               Inl e \<Rightarrow> Inl e
             | Inr st2 \<Rightarrow>
                 Inr (Continue
                   (st2\<lparr>world := world st2
                         @ [Slept (max 5 (total_seconds next_run
                                            (datetime_now env (Suc (clock_count (world st))))))]\<rparr>)))"
    using assms(1,3,4) nr
    by (simp add: main_iteration_def now_eastern_def cong: sum.case_cong)
  with nr show ?thesis by blast
qed

lemma session_times_noon:
  "session_times noon
     = Inr (\<lparr>ordinal = 739000, hour = 9, minute = 30, second = 0, microsecond = 0\<rparr>,
            \<lparr>ordinal = 739000, hour = 16, minute = 0, second = 0, microsecond = 0\<rparr>,
            ten_oclock)"
  by (simp add: session_times_def noon_def ten_oclock_def replace_time_def add_minutes_def
        HIGH_FREQ_DURATION_def MAXORDINAL_def)

lemma unavailable_fetch:
  "get_analysis env (fetch_count w) t i = Raise ''Exchange or symbol not found.''
   \<Longrightarrow> get_tradingview_price env t i 3 5 w = Inr (None, w @ [Fetched t i])"
  by (simp add: get_tradingview_price_def fetch_loop_other_error sublist_code prefix_code)

theorem boundary_is_low_frequency_witness:
  "main_iteration boundary_env
     \<lparr>ordinal = 739000, hour = 9, minute = 30, second = 0, microsecond = 0\<rparr>
     \<lparr>ordinal = 739000, hour = 16, minute = 0, second = 0, microsecond = 0\<rparr>
     ten_oclock initial_state
   = Inr (Continue (initial_state
       \<lparr>world := [ClockRead, ClockRead,
                  Fetched ''TSLA'' INTERVAL_15_MINUTES, Fetched ''MSFT'' INTERVAL_15_MINUTES,
                  Fetched ''NVDA'' INTERVAL_15_MINUTES, Fetched ''PLTR'' INTERVAL_15_MINUTES,
                  Slept 598]\<rparr>))"
proof -
  let ?open = "\<lparr>ordinal = 739000, hour = 9, minute = 30, second = 0, microsecond = 0\<rparr>"
  let ?close = "\<lparr>ordinal = 739000, hour = 16, minute = 0, second = 0, microsecond = 0\<rparr>"
  have w0: "world initial_state = []"
    by (simp add: initial_state_def)
  have h1: "datetime_now boundary_env (clock_count (world initial_state)) = ten_oclock"
    by (simp add: w0 boundary_env_def)
  have h2: "valid_datetime ten_oclock"
    by (simp add: valid_datetime_def ten_oclock_def MAXORDINAL_def)
  have h3: "dt_le ?open ten_oclock"
    by (simp add: dt_le_def dt_less_def ten_oclock_def)
  have h4: "dt_le ten_oclock ?close"
    by (simp add: dt_le_def dt_less_def ten_oclock_def)
  have nr: "get_next_10min_run ten_oclock = Inr (ten_oclock\<lparr>minute := 10\<rparr>)"
    by (simp add: get_next_10min_run_def replace_time_def dt_le_def dt_less_def ten_oclock_def)
  have ga: "get_analysis boundary_env k t i = Raise ''Exchange or symbol not found.''" for k t i
    by (simp add: boundary_env_def)
  have loop: "for_tickers boundary_env INTERVAL_15_MINUTES Ref_15min TICKERS
                (initial_state\<lparr>world := [ClockRead, ClockRead]\<rparr>)
              = Inr (initial_state
                  \<lparr>world := [ClockRead, ClockRead,
                     Fetched ''TSLA'' INTERVAL_15_MINUTES, Fetched ''MSFT'' INTERVAL_15_MINUTES,
                     Fetched ''NVDA'' INTERVAL_15_MINUTES, Fetched ''PLTR'' INTERVAL_15_MINUTES]\<rparr>)"
    by (simp add: TICKERS_def process_ticker_def unavailable_fetch [OF ga])
  have secs: "total_seconds (ten_oclock\<lparr>minute := 10\<rparr>) (datetime_now boundary_env (Suc 0)) = 598"
    by (simp add: total_seconds_def to_microseconds_def ten_oclock_def boundary_env_def)
  from boundary_is_low_frequency [OF h1 h2 h3 h4] show ?thesis
    by (simp add: nr w0 loop secs)
qed

section \<open>No repeated signal in the log\<close>

lemma rows_of_append [simp]: "rows_of t (w @ v) = rows_of t w @ rows_of t v"
  by (simp add: rows_of_def)

lemma rows_of_simps [simp]:
  "rows_of t [] = []"
  "rows_of t [Slept d] = []"
  "rows_of t [ClockRead] = []"
  "rows_of t [Fetched u i] = []"
  "rows_of t [Logged r] = (if Ticker r = t then [r] else [])"
  by (simp_all add: rows_of_def)

lemma log_agrees_world:
  "log_agrees t st \<Longrightarrow> logged w = logged (world st) \<Longrightarrow> log_agrees t (st\<lparr>world := w\<rparr>)"
  by (simp add: log_agrees_def rows_of_def)

lemma log_agrees_cong:
  "log_agrees t st \<Longrightarrow> logged (world st') = logged (world st)
   \<Longrightarrow> last_signal st' = last_signal st \<Longrightarrow> log_agrees t st'"
  by (simp add: log_agrees_def rows_of_def)

lemma process_ticker_cases:
  assumes "process_ticker env intv h ticker st = Inr st'"
  shows "(logged (world st') = logged (world st) \<and> last_signal st' = last_signal st)
         \<or> (\<exists>r stored. last_signal st ticker = Some stored \<and> stored \<noteq> Some (Signal r)
               \<and> Ticker r = ticker
               \<and> logged (world st') = logged (world st) @ [r]
               \<and> last_signal st' = (last_signal st)(ticker \<mapsto> Some (Signal r)))"
proof (cases "get_tradingview_price env ticker intv 3 5 (world st)")
  case (Inl e)
  with assms show ?thesis by (simp add: process_ticker_def)
next
  case (Inr res)
  obtain po w1 where res: "res = (po, w1)" by (cases res)
  from get_tradingview_price_quiet Inr res have q: "logged w1 = logged (world st)"
    by blast
  show ?thesis
  proof (cases po)
    case None
    with assms Inr res q show ?thesis by (auto simp: process_ticker_def)
  next
    case (Some p)
    from assms Inr res Some obtain dq where dq: "history_of h st ticker = Some dq"
      by (cases "history_of h st ticker") (simp_all add: process_ticker_def)
    obtain dq' sig s l where g: "get_swing_signal dq p = (dq', sig, s, l)"
      by (cases "get_swing_signal dq p")
    from assms Inr res Some dq g obtain stored where st: "last_signal st ticker = Some stored"
      by (cases "last_signal st ticker") (simp_all add: process_ticker_def)
    show ?thesis
    proof (cases "stored = Some sig")
      case True
      with assms Inr res Some dq g st q show ?thesis
        by (auto simp: process_ticker_def)
    next
      case False
      with assms Inr res Some dq g st q show ?thesis
        by (auto simp: process_ticker_def now_eastern_def log_signal_def)
    qed
  qed
qed

lemma process_ticker_log_agrees:
  assumes "log_agrees t st" and "process_ticker env intv h ticker st = Inr st'"
  shows "log_agrees t st'"
  using process_ticker_cases [OF assms(2)]
proof (elim disjE exE conjE)
  assume "logged (world st') = logged (world st)" "last_signal st' = last_signal st"
  with assms(1) show ?thesis by (rule log_agrees_cong)
next
  fix r stored
  assume a: "last_signal st ticker = Some stored" "stored \<noteq> Some (Signal r)" "Ticker r = ticker"
    "logged (world st') = logged (world st) @ [r]"
    "last_signal st' = (last_signal st)(ticker \<mapsto> Some (Signal r))"
  show ?thesis
  proof (cases "ticker = t")
    case False
    with a assms(1) show ?thesis
      by (simp add: log_agrees_def rows_of_def)
  next
    case True
    with a assms(1) show ?thesis
      by (auto simp: log_agrees_def rows_of_def Let_def distinct_adj_append_iff)
  qed
qed

lemma for_tickers_log_agrees:
  "log_agrees t st \<Longrightarrow> for_tickers env intv h ts st = Inr st' \<Longrightarrow> log_agrees t st'"
proof (induction ts arbitrary: st)
  case Nil
  then show ?case by simp
next
  case (Cons a ts)
  from Cons.prems(2) obtain st1 where
    s1: "process_ticker env intv h a st = Inr st1" and s2: "for_tickers env intv h ts st1 = Inr st'"
    by (auto split: sum.splits)
  from process_ticker_log_agrees [OF Cons.prems(1) s1] s2 show ?case
    by (rule Cons.IH)
qed

lemma low_frequency_branch:
  assumes "datetime_now env (clock_count (world st)) = now"
    and "dt_le market_open now"
    and "dt_le now market_close"
    and "\<not> dt_less now high_freq_end"
  shows "main_iteration env market_open market_close high_freq_end st
           = (case get_next_10min_run now of
                Inl e \<Rightarrow> Inl e
              | Inr next_run \<Rightarrow>
                  (case for_tickers env INTERVAL_15_MINUTES Ref_15min TICKERS
                          (st\<lparr>world := world st @ [ClockRead, ClockRead]\<rparr>) of
                     Inl e \<Rightarrow> Inl e
                   | Inr st2 \<Rightarrow>
                       Inr (Continue
                         (st2\<lparr>world := world st2
                               @ [Slept (max 5 (total_seconds next_run
                                                  (datetime_now env (Suc (clock_count (world st))))))]\<rparr>))))"
proof (cases "get_next_10min_run now")
  case (Inl e)
  with assms show ?thesis
    by (simp add: main_iteration_def now_eastern_def)
next
  case (Inr next_run)
  with assms show ?thesis
    by (simp add: main_iteration_def now_eastern_def cong: sum.case_cong)
qed

lemma after_close_breaks:
  assumes "datetime_now env (clock_count (world st)) = now"
    and "\<not> (dt_le market_open now \<and> dt_le now market_close)"
    and "dt_less market_close now"
  shows "main_iteration env market_open market_close high_freq_end st
           = Inr (Break (st\<lparr>world := world st @ [ClockRead]\<rparr>))"
  using assms
  by (cases "dt_le market_open now") (simp_all add: main_iteration_def now_eastern_def)

lemma before_open_waits:
  assumes "datetime_now env (clock_count (world st)) = now"
    and "\<not> (dt_le market_open now \<and> dt_le now market_close)"
    and "\<not> dt_less market_close now"
  shows "main_iteration env market_open market_close high_freq_end st
           = Inr (Continue (st\<lparr>world := world st @ [ClockRead,
                                Slept (max 30 (delta_seconds market_open now))]\<rparr>))"
  using assms
  by (cases "dt_le market_open now") (simp_all add: main_iteration_def now_eastern_def)

lemma main_iteration_log_agrees:
  assumes "log_agrees t st"
    and "main_iteration env market_open market_close high_freq_end st = Inr step"
  shows "case step of Continue st' \<Rightarrow> log_agrees t st' | Break st' \<Rightarrow> log_agrees t st'"
proof -
  define now where "now = datetime_now env (clock_count (world st))"
  then have now: "datetime_now env (clock_count (world st)) = now" by simp
  have inv0: "log_agrees t (st\<lparr>world := world st @ w\<rparr>)" if "logged w = []" for w
    using assms(1) by (rule log_agrees_world) (simp add: that)
  show ?thesis
  proof (cases "dt_le market_open now \<and> dt_le now market_close")
    case False
    show ?thesis
    proof (cases "dt_less market_close now")
      case True
      from after_close_breaks [OF now False True] assms(2) inv0 [of "[ClockRead]"]
      show ?thesis by auto
    next
      case notafter: False
      from before_open_waits [OF now False notafter] assms(2)
        inv0 [of "[ClockRead, Slept (max 30 (delta_seconds market_open now))]"]
      show ?thesis by auto
    qed
  next
    case session: True
    then have s1: "dt_le market_open now" and s2: "dt_le now market_close" by simp_all
    show ?thesis
    proof (cases "dt_less now high_freq_end")
      case True
      from before_boundary_is_high_frequency [OF now s1 s2 True] assms(2) obtain st2 where
        run: "for_tickers env INTERVAL_1_MINUTE Ref_1min TICKERS
                (st\<lparr>world := world st @ [ClockRead]\<rparr>) = Inr st2"
        and step: "step = Continue (st2\<lparr>world := world st2 @ [Slept 60]\<rparr>)"
        by (cases "for_tickers env INTERVAL_1_MINUTE Ref_1min TICKERS
                     (st\<lparr>world := world st @ [ClockRead]\<rparr>)") auto
      from for_tickers_log_agrees [OF inv0 run] have "log_agrees t st2" by simp
      then have "log_agrees t (st2\<lparr>world := world st2 @ [Slept 60]\<rparr>)"
        by (rule log_agrees_world) simp
      with step show ?thesis by simp
    next
      case False
      from low_frequency_branch [OF now s1 s2 False] assms(2) obtain next_run where
        nr: "get_next_10min_run now = Inr next_run"
        by (cases "get_next_10min_run now") auto
      with low_frequency_branch [OF now s1 s2 False] assms(2) obtain st2 d where
        run: "for_tickers env INTERVAL_15_MINUTES Ref_15min TICKERS
                (st\<lparr>world := world st @ [ClockRead, ClockRead]\<rparr>) = Inr st2"
        and step: "step = Continue (st2\<lparr>world := world st2 @ [Slept d]\<rparr>)"
        by (cases "for_tickers env INTERVAL_15_MINUTES Ref_15min TICKERS
                     (st\<lparr>world := world st @ [ClockRead, ClockRead]\<rparr>)") auto
      from for_tickers_log_agrees [OF inv0 run] have "log_agrees t st2" by simp
      then have "log_agrees t (st2\<lparr>world := world st2 @ [Slept d]\<rparr>)"
        by (rule log_agrees_world) simp
      with step show ?thesis by simp
    qed
  qed
qed

lemma main_loop_log_agrees:
  "log_agrees t st
   \<Longrightarrow> main_loop fuel env market_open market_close high_freq_end st = Some (Inr st')
   \<Longrightarrow> log_agrees t st'"
proof (induction fuel arbitrary: st)
  case 0
  then show ?case by simp
next
  case (Suc fuel)
  show ?case
  proof (cases "main_iteration env market_open market_close high_freq_end st")
    case (Inl e)
    with Suc.prems(2) show ?thesis by simp
  next
    case (Inr step)
    note inv = main_iteration_log_agrees [OF Suc.prems(1) Inr]
    show ?thesis
    proof (cases step)
      case (Break st1)
      with Inr Suc.prems(2) have "st' = st1" by simp
      with Break inv show ?thesis by simp
    next
      case (Continue st1)
      with Inr Suc.prems(2) have run:
        "main_loop fuel env market_open market_close high_freq_end st1 = Some (Inr st')"
        by simp
      from Continue inv have "log_agrees t st1" by simp
      from this run show ?thesis by (rule Suc.IH)
    qed
  qed
qed

lemma preload_logged:
  "logged (snd (preload_price_history env t d i w)) = logged w"
  by (simp add: preload_price_history_def split: fetch_result.splits)

lemma preload_all_quiet:
  "preload_all env ts st = Inr st'
   \<Longrightarrow> logged (world st') = logged (world st) \<and> last_signal st' = last_signal st"
proof (induction ts arbitrary: st)
  case Nil
  then show ?case by simp
next
  case (Cons t ts)
  from Cons.prems obtain d1 where d1: "price_history_1min st t = Some d1"
    by (cases "price_history_1min st t") simp_all
  obtain d1' w1 where p1: "preload_price_history env t d1 INTERVAL_1_MINUTE (world st) = (d1', w1)"
    by (cases "preload_price_history env t d1 INTERVAL_1_MINUTE (world st)")
  let ?st1 = "st\<lparr>price_history_1min := (price_history_1min st)(t \<mapsto> d1'),
                  world := w1 @ [Slept (3 / 2)]\<rparr>"
  from Cons.prems d1 p1 obtain d15 where d15: "price_history_15min ?st1 t = Some d15"
    by (cases "price_history_15min ?st1 t") simp_all
  obtain d15' w2 where p2: "preload_price_history env t d15 INTERVAL_15_MINUTES (world ?st1) = (d15', w2)"
    by (cases "preload_price_history env t d15 INTERVAL_15_MINUTES (world ?st1)")
  let ?st2 = "?st1\<lparr>price_history_15min := (price_history_15min ?st1)(t \<mapsto> d15'),
                    world := w2 @ [Slept (3 / 2)]\<rparr>"
  have l1: "logged w1 = logged (world st)"
    using preload_logged [of env t d1 INTERVAL_1_MINUTE "world st"] p1 by simp
  have l2: "logged w2 = logged (world ?st1)"
    using preload_logged [of env t d15 INTERVAL_15_MINUTES "world ?st1"] p2 by simp
  from Cons.prems d1 d15 p1 p2 have "preload_all env ts ?st2 = Inr st'"
    by simp
  from Cons.IH [OF this] l1 l2 show ?case by simp
qed

lemma initial_log_agrees: "log_agrees t initial_state"
  by (simp add: log_agrees_def initial_state_def)

text \<open>
  Over a whole run of \<^verbatim>\<open>main\<close> that ends, whatever the quote source and the clock do, no
  two consecutive rows of a ticker in the log carry the same signal.
\<close>

lemma main_no_repeated_signal:
  assumes "main fuel env = Some (Inr st)"
  shows "distinct_adj (map Signal (rows_of t (world st)))"
proof -
  from assms obtain st0 where pre: "preload_all env TICKERS initial_state = Inr st0"
    by (cases "preload_all env TICKERS initial_state") (simp_all add: main_def)
  from preload_all_quiet [OF pre] have
    "logged (world st0) = logged (world initial_state)" "last_signal st0 = last_signal initial_state"
    by simp_all
  with initial_log_agrees [of t] have "log_agrees t st0"
    by (rule log_agrees_cong)
  then have inv: "log_agrees t (st0\<lparr>world := world st0 @ [ClockRead]\<rparr>)"
    by (rule log_agrees_world) simp
  let ?now = "datetime_now env (clock_count (world st0))"
  have m: "main fuel env
             = (case session_times ?now of
                  Inl e \<Rightarrow> Some (Inl e)
                | Inr (market_open, market_close, high_freq_end) \<Rightarrow>
                    main_loop fuel env market_open market_close high_freq_end
                      (st0\<lparr>world := world st0 @ [ClockRead]\<rparr>))"
    by (simp add: main_def pre now_eastern_def)
  from assms obtain times where ts: "session_times ?now = Inr times"
    unfolding m by (cases "session_times ?now") simp_all
  obtain mo mc hfe where times: "times = (mo, mc, hfe)"
    by (cases times)
  from assms have
    "main_loop fuel env mo mc hfe (st0\<lparr>world := world st0 @ [ClockRead]\<rparr>) = Some (Inr st)"
    unfolding m ts times by simp
  from main_loop_log_agrees [OF inv this] show ?thesis
    by (simp add: log_agrees_def Let_def)
qed

end
